theory Spec2Isabelle
  imports Complex_Main "HOL-Library.Multiset"
begin

section \<open>Time values and the day of the month\<close>

text \<open>
  The routes call two methods of the built-in \<open>Date\<close> object: \<open>getTime\<close> (route
  \<open>POST /\<close>) and \<open>getDate\<close> (route \<open>PUT /:id\<close>). A valid \<open>Date\<close> is its time
  value, the number of milliseconds since the epoch. \<open>getDate\<close> is the language's
  \<open>DateFromTime (LocalTime t)\<close>; the functions below are the ones of the language
  definition, under their names there, on mathematical integers (\<open>div\<close> on \<open>int\<close> rounds
  down, as \<open>floor\<close> does).
\<close>

definition msPerDay :: int where
  "msPerDay = 86400000"

definition Day :: "int \<Rightarrow> int" where
  "Day t = t div msPerDay"

definition leap_year :: "int \<Rightarrow> bool" where
  "leap_year y = (y mod 4 = 0 \<and> (y mod 100 \<noteq> 0 \<or> y mod 400 = 0))"

definition DaysInYear :: "int \<Rightarrow> int" where
  "DaysInYear y = (if leap_year y then 366 else 365)"

definition DayFromYear :: "int \<Rightarrow> int" where
  "DayFromYear y =
     365 * (y - 1970) + (y - 1969) div 4 - (y - 1901) div 100 + (y - 1601) div 400"

definition TimeFromYear :: "int \<Rightarrow> int" where
  "TimeFromYear y = msPerDay * DayFromYear y"

lemma div_step:
  fixes a k :: int
  assumes k: "0 < k"
  shows "(a + 1) div k = a div k + (if (a + 1) mod k = 0 then 1 else 0)"
proof -
  define q where "q = a div k"
  define r where "r = a mod k"
  have a: "a = k * q + r" by (simp add: q_def r_def)
  have r: "0 \<le> r" "r < k" using k by (simp_all add: r_def)
  show ?thesis
  proof (cases "r + 1 = k")
    case True
    then have e: "a + 1 = k * (q + 1)" using a by (simp add: distrib_left)
    have "(a + 1) div k = q + 1" unfolding e using k by simp
    moreover have "(a + 1) mod k = 0" unfolding e by simp
    ultimately show ?thesis by (simp add: q_def)
  next
    case False
    then have lt: "r + 1 < k" using r by linarith
    have e: "a + 1 = k * q + (r + 1)" using a by simp
    have "(a + 1) div k = q + (r + 1) div k" unfolding e using k by simp
    moreover have "(r + 1) div k = 0" using r lt by (simp add: div_pos_pos_trivial)
    moreover have "(a + 1) mod k = (r + 1) mod k" unfolding e by simp
    moreover have "(r + 1) mod k = r + 1" using r lt by (simp add: mod_pos_pos_trivial)
    ultimately show ?thesis using r by (simp add: q_def)
  qed
qed

lemma mod100_mod4: "(y::int) mod 100 = 0 \<Longrightarrow> y mod 4 = 0"
  using mod_mod_cancel [of 4 100 y] by simp

lemma mod400_mod100: "(y::int) mod 400 = 0 \<Longrightarrow> y mod 100 = 0"
  using mod_mod_cancel [of 100 400 y] by simp

lemma leap_days:
  "(p100 \<longrightarrow> p4) \<Longrightarrow> (p400 \<longrightarrow> p100) \<Longrightarrow>
   365 + (if p4 then 1 else 0) - (if p100 then 1 else 0) + (if p400 then 1 else 0) =
   (if p4 \<and> (\<not> p100 \<or> p400) then 366 else (365::int))"
  by (cases p4; cases p100; cases p400) simp_all

lemma day_sum:
  fixes A B C a b c y :: int
  shows "365 * (y + 1 - 1970) + (A + a) - (B + b) + (C + c) =
         365 * (y - 1970) + A - B + C + (365 + a - b + c)"
  by simp

lemma div_step_year:
  fixes y k c :: int
  assumes "0 < k" and "(c - 1) mod k = 0"
  shows "(y + 1 - c) div k = (y - c) div k + (if y mod k = 0 then 1 else 0)"
proof -
  have e: "y + 1 - c = (y - c) + 1" by simp
  have "(y - c + 1) mod k = (y - (c - 1)) mod k" by (simp add: algebra_simps)
  also have "\<dots> = (y - (c - 1) mod k) mod k" by (simp only: mod_diff_right_eq)
  also have "\<dots> = y mod k" by (simp only: assms(2) diff_zero)
  finally have m: "(y - c + 1) mod k = y mod k" .
  show ?thesis unfolding e using div_step [OF assms(1), of "y - c"] by (simp only: m)
qed

lemma DayFromYear_Suc: "DayFromYear (y + 1) = DayFromYear y + DaysInYear y"
proof -
  have a: "(y + 1 - 1969) div 4 = (y - 1969) div 4 + (if y mod 4 = 0 then 1 else 0)"
    by (rule div_step_year) simp_all
  have b: "(y + 1 - 1901) div 100 = (y - 1901) div 100 + (if y mod 100 = 0 then 1 else 0)"
    by (rule div_step_year) simp_all
  have c: "(y + 1 - 1601) div 400 = (y - 1601) div 400 + (if y mod 400 = 0 then 1 else 0)"
    by (rule div_step_year) simp_all
  have "DayFromYear (y + 1) = DayFromYear y + (365 + (if y mod 4 = 0 then 1 else 0)
      - (if y mod 100 = 0 then 1 else 0) + (if y mod 400 = 0 then 1 else 0))"
    unfolding DayFromYear_def a b c by (rule day_sum)
  also have "365 + (if y mod 4 = 0 then 1 else 0)
      - (if y mod 100 = 0 then 1 else 0) + (if y mod 400 = 0 then 1 else 0) = DaysInYear y"
    unfolding DaysInYear_def leap_year_def
    by (rule leap_days [of "y mod 100 = 0" "y mod 4 = 0" "y mod 400 = 0"])
      (simp_all add: mod100_mod4 mod400_mod100)
  finally show ?thesis .
qed

lemma DaysInYear_ge: "365 \<le> DaysInYear y"
  by (simp add: DaysInYear_def)

lemma TimeFromYear_Suc: "TimeFromYear (y + 1) = TimeFromYear y + msPerDay * DaysInYear y"
  by (simp add: TimeFromYear_def DayFromYear_Suc distrib_left)

lemma TimeFromYear_less: "TimeFromYear y < TimeFromYear (y + 1)"
proof -
  have "0 < msPerDay" by (simp add: msPerDay_def)
  moreover have "0 < DaysInYear y" using DaysInYear_ge [of y] by linarith
  ultimately have "0 < msPerDay * DaysInYear y" by (rule mult_pos_pos)
  then show ?thesis by (simp add: TimeFromYear_Suc)
qed

text \<open>
  \<open>YearFromTime t\<close> is the largest year \<open>y\<close> with \<open>TimeFromYear y \<le> t\<close>. It is found by
  a search from 1970, upwards for a time at or after the epoch and downwards before it.
\<close>

function year_up :: "int \<Rightarrow> int \<Rightarrow> int" where
  "year_up t y = (if TimeFromYear (y + 1) \<le> t then year_up t (y + 1) else y)"
  by pat_completeness auto
termination
proof (relation "measure (\<lambda>(t, y). nat (t + 1 - TimeFromYear (y + 1)))")
  show "wf (measure (\<lambda>(t, y). nat (t + 1 - TimeFromYear (y + 1))))" by simp
next
  fix t y :: int
  assume "TimeFromYear (y + 1) \<le> t"
  then show "((t, y + 1), (t, y)) \<in> measure (\<lambda>(t, y). nat (t + 1 - TimeFromYear (y + 1)))"
    using TimeFromYear_less [of "y + 1"] unfolding in_measure prod.case by linarith
qed

function year_down :: "int \<Rightarrow> int \<Rightarrow> int" where
  "year_down t y = (if t < TimeFromYear y then year_down t (y - 1) else y)"
  by pat_completeness auto
termination
proof (relation "measure (\<lambda>(t, y). nat (TimeFromYear y - t))")
  show "wf (measure (\<lambda>(t, y). nat (TimeFromYear y - t)))" by simp
next
  fix t y :: int
  assume "t < TimeFromYear y"
  moreover have "TimeFromYear (y - 1) < TimeFromYear y"
    using TimeFromYear_less [of "y - 1"] by simp
  ultimately show "((t, y - 1), (t, y)) \<in> measure (\<lambda>(t, y). nat (TimeFromYear y - t))"
    unfolding in_measure prod.case by linarith
qed

declare year_up.simps [simp del] year_down.simps [simp del]

definition YearFromTime :: "int \<Rightarrow> int" where
  "YearFromTime t = (if 0 \<le> t then year_up t 1970 else year_down t 1969)"

definition InLeapYear :: "int \<Rightarrow> int" where
  "InLeapYear t = (if DaysInYear (YearFromTime t) = 366 then 1 else 0)"

definition DayWithinYear :: "int \<Rightarrow> int" where
  "DayWithinYear t = Day t - DayFromYear (YearFromTime t)"

definition MonthFromTime :: "int \<Rightarrow> int" where
  "MonthFromTime t =
     (let d = DayWithinYear t; l = InLeapYear t in
      if d < 31 then 0
      else if d < 59 + l then 1
      else if d < 90 + l then 2
      else if d < 120 + l then 3
      else if d < 151 + l then 4
      else if d < 181 + l then 5
      else if d < 212 + l then 6
      else if d < 243 + l then 7
      else if d < 273 + l then 8
      else if d < 304 + l then 9
      else if d < 334 + l then 10
      else 11)"

definition DateFromTime :: "int \<Rightarrow> int" where
  "DateFromTime t =
     (let d = DayWithinYear t; l = InLeapYear t; m = MonthFromTime t in
      if m = 0 then d + 1
      else if m = 1 then d - 30
      else if m = 2 then d - 58 - l
      else if m = 3 then d - 89 - l
      else if m = 4 then d - 119 - l
      else if m = 5 then d - 150 - l
      else if m = 6 then d - 180 - l
      else if m = 7 then d - 211 - l
      else if m = 8 then d - 242 - l
      else if m = 9 then d - 272 - l
      else if m = 10 then d - 303 - l
      else d - 333 - l)"

text \<open>
  What the program takes from its surroundings: the local time zone adjustment in
  milliseconds at a time value (\<open>LocalTZA\<close>), and the time value \<open>Date.parse\<close> gives a
  string (\<open>None\<close> for \<open>NaN\<close>). Both are left open; every theorem below holds for each
  choice of them.
\<close>

record js_env =
  LocalTZA :: "int \<Rightarrow> int"
  Date_parse :: "string \<Rightarrow> int option"

datatype Date = Date int

fun getTime :: "Date \<Rightarrow> int" where
  "getTime (Date t) = t"

definition LocalTime :: "js_env \<Rightarrow> int \<Rightarrow> int" where
  "LocalTime env t = t + LocalTZA env t"

fun getDate :: "js_env \<Rightarrow> Date \<Rightarrow> int" where
  "getDate env (Date t) = DateFromTime (LocalTime env t)"

section \<open>Requests, replies and the table of meals\<close>

text \<open>
  A row of the table \<open>meals\<close>, with the columns the routes read and write. The column
  \<open>id\<close> is \<open>id_meal\<close> here, \<open>id\<close> being the identity function of HOL.
\<close>

record meal =
  id_meal :: string
  user_id :: string
  name :: string
  description :: string
  is_on_diet :: bool
  date :: int

text \<open>The table is the list of its rows, in the order they were inserted.\<close>

type_synonym meals = "meal list"

text \<open>
  \<open>request.user\<close> is set by the session check that runs before every handler; its
  field \<open>id\<close> is \<open>id_user\<close> here.
\<close>

record session_user =
  id_user :: string

text \<open>
  A member of a JSON request body. \<open>JNum\<close> carries the value of the number, a
  rational. A member that is an array or an object is not modelled.
\<close>

datatype jsval = JNull | JBool bool | JNum rat | JStr string

text \<open>
  \<open>request.params.id\<close> is the path segment, always a string. \<open>request.body\<close> is
  \<open>None\<close> when the body is not a JSON object, and else maps each key that is present
  to its value.
\<close>

record request =
  user :: session_user
  params_id :: string
  body :: "(string \<rightharpoonup> jsval) option"

record metrics =
  totalMeals :: int
  totalMealsOnDiet :: int
  totalMealsOffDiet :: int
  bestOnDietSequence :: int

datatype payload =
    Empty
  | Message string
  | Error string
  | Meal meal
  | Meals "meal list"
  | Metrics metrics

record reply =
  status :: nat
  payload :: payload

text \<open>The only exception the handlers throw themselves: a schema's \<open>parse\<close> failing.\<close>

datatype error = ZodError

subsection \<open>Schemas\<close>

definition hex_digit :: "char \<Rightarrow> bool" where
  "hex_digit c = (c \<in> set ''0123456789abcdefABCDEF'')"

text \<open>
  \<open>z.string().uuid()\<close>: five groups of 8, 4, 4, 4 and 12 hexadecimal digits, with a
  hyphen between two groups.
\<close>

definition uuid :: "string \<Rightarrow> bool" where
  "uuid s =
     (length s = 36 \<and>
      list_all (\<lambda>i. if i \<in> set [8, 13, 18, 23] then s ! i = CHR ''-'' else hex_digit (s ! i))
        [0..<36])"

definition paramsSchema :: "string \<Rightarrow> error + string" where
  "paramsSchema i = (if uuid i then Inr i else Inl ZodError)"

text \<open>
  The schemas of the members take the member as \<open>jsval option\<close>, \<open>None\<close> for a key that
  is absent (\<open>undefined\<close>), and give \<open>None\<close> when the member does not parse.
\<close>

fun z_string :: "jsval option \<Rightarrow> string option" where
  "z_string (Some (JStr s)) = Some s"
| "z_string _ = None"

fun z_boolean :: "jsval option \<Rightarrow> bool option" where
  "z_boolean (Some (JBool b)) = Some b"
| "z_boolean _ = None"

text \<open>
  \<open>z.coerce.date()\<close> is \<open>new Date(v)\<close>, refused when the date is invalid. A number is a
  time value when it is at most \<open>8.64e15\<close> in absolute value, and then its fraction is
  cut off towards zero; \<open>null\<close> is the number 0, \<open>true\<close> and \<open>false\<close> are 1 and 0, a
  string goes through \<open>Date.parse\<close>, and \<open>undefined\<close> is an invalid date.
\<close>

definition ToIntegerOrInfinity :: "rat \<Rightarrow> int" where
  "ToIntegerOrInfinity x = (if 0 \<le> x then \<lfloor>x\<rfloor> else \<lceil>x\<rceil>)"

definition TimeClip :: "rat \<Rightarrow> int option" where
  "TimeClip t = (if \<bar>t\<bar> \<le> 8640000000000000 then Some (ToIntegerOrInfinity t) else None)"

fun z_coerce_date :: "js_env \<Rightarrow> jsval option \<Rightarrow> Date option" where
  "z_coerce_date env None = None"
| "z_coerce_date env (Some JNull) = Some (Date 0)"
| "z_coerce_date env (Some (JBool b)) = Some (Date (if b then 1 else 0))"
| "z_coerce_date env (Some (JNum n)) = map_option Date (TimeClip n)"
| "z_coerce_date env (Some (JStr s)) =
     (case Date_parse env s of
        None \<Rightarrow> None
      | Some t \<Rightarrow> map_option Date (TimeClip (of_int t)))"

text \<open>\<open>.optional()\<close>: \<open>undefined\<close> parses to \<open>undefined\<close>, anything else goes to the schema.\<close>

definition z_optional :: "(jsval option \<Rightarrow> 'a option) \<Rightarrow> jsval option \<Rightarrow> 'a option option" where
  "z_optional schema v = (case v of None \<Rightarrow> Some None | Some _ \<Rightarrow> map_option Some (schema v))"

definition createMealBodySchema ::
  "js_env \<Rightarrow> (string \<rightharpoonup> jsval) option \<Rightarrow> error + (string \<times> string \<times> bool \<times> Date)" where
  "createMealBodySchema env b =
     (case b of
        None \<Rightarrow> Inl ZodError
      | Some obj \<Rightarrow>
          (case (z_string (obj ''name''), z_string (obj ''description''),
                 z_boolean (obj ''isOnDiet''), z_coerce_date env (obj ''date'')) of
             (Some n, Some d, Some f, Some t) \<Rightarrow> Inr (n, d, f, t)
           | _ \<Rightarrow> Inl ZodError))"

definition editMealBodySchema ::
  "js_env \<Rightarrow> (string \<rightharpoonup> jsval) option \<Rightarrow>
   error + (string option \<times> string option \<times> bool option \<times> Date option)" where
  "editMealBodySchema env b =
     (case b of
        None \<Rightarrow> Inl ZodError
      | Some obj \<Rightarrow>
          (case (z_optional z_string (obj ''name''), z_optional z_string (obj ''description''),
                 z_optional z_boolean (obj ''isOnDiet''),
                 z_optional (z_coerce_date env) (obj ''date'')) of
             (Some n, Some d, Some f, Some t) \<Rightarrow> Inr (n, d, f, t)
           | _ \<Rightarrow> Inl ZodError))"

subsection \<open>Queries\<close>

text \<open>\<open>.where({ id })\<close>, \<open>.where({ user_id })\<close>, \<open>.where({ user_id, is_on_diet })\<close>.\<close>

definition where_id :: "string \<Rightarrow> meals \<Rightarrow> meals" where
  "where_id i rows = filter (\<lambda>m. id_meal m = i) rows"

definition where_user_id :: "string \<Rightarrow> meals \<Rightarrow> meals" where
  "where_user_id u rows = filter (\<lambda>m. user_id m = u) rows"

definition where_user_id_is_on_diet :: "string \<Rightarrow> bool \<Rightarrow> meals \<Rightarrow> meals" where
  "where_user_id_is_on_diet u f rows = filter (\<lambda>m. user_id m = u \<and> is_on_diet m = f) rows"

text \<open>\<open>.first()\<close>: the first row of the result, \<open>undefined\<close> when there is none.\<close>

fun first :: "meals \<Rightarrow> meal option" where
  "first [] = None"
| "first (m # _) = Some m"

text \<open>
  \<open>.orderBy('date', 'desc')\<close>. The database leaves the order of rows of equal date
  open; here they keep the order of the table.
\<close>

definition orderBy_date_desc :: "meals \<Rightarrow> meals" where
  "orderBy_date_desc rows = sort_key (\<lambda>m. - date m) rows"

text \<open>\<open>.count('id', { as: 'total' }).first()\<close>: the one row of the count, its \<open>total\<close>.\<close>

definition count_total :: "meals \<Rightarrow> int" where
  "count_total rows = int (length rows)"

definition insert_meal :: "meal \<Rightarrow> meals \<Rightarrow> meals" where
  "insert_meal m rows = rows @ [m]"

text \<open>\<open>.where({ id }).update({ name, description, is_on_diet, date })\<close>.\<close>

definition update_where_id :: "string \<Rightarrow> string \<Rightarrow> string \<Rightarrow> bool \<Rightarrow> int \<Rightarrow> meals \<Rightarrow> meals" where
  "update_where_id i n d f t rows =
     map (\<lambda>m. if id_meal m = i
               then m\<lparr>name := n, description := d, is_on_diet := f, date := t\<rparr>
               else m) rows"

text \<open>\<open>.where({ id }).delete()\<close>.\<close>

definition delete_where_id :: "string \<Rightarrow> meals \<Rightarrow> meals" where
  "delete_where_id i rows = filter (\<lambda>m. id_meal m \<noteq> i) rows"

text \<open>The operator \<open>??\<close>: the right side when the left one is \<open>undefined\<close>.\<close>

fun nullish :: "'a option \<Rightarrow> 'a \<Rightarrow> 'a" where
  "nullish None b = b"
| "nullish (Some a) b = a"

section \<open>The routes\<close>

text \<open>
  A handler takes the request and the table and gives what it answers, a reply or the
  exception it throws, and the table it leaves. The handlers are named after their
  routes.
\<close>

type_synonym outcome = "(error + reply) \<times> meals"

text \<open>
  \<open>randomUUID()\<close> of the module \<open>crypto\<close>: sixteen random bytes, the version 4 written
  into the high half of byte 6 and the variant into the two high bits of byte 8, in
  lower-case hexadecimal digits, grouped as 4, 2, 2, 2 and 6 bytes with a hyphen between
  two groups. \<open>rnd i\<close> is the random byte at position \<open>i\<close> that this call draws.
\<close>

definition hex_char :: "nat \<Rightarrow> char" where
  "hex_char n = ''0123456789abcdef'' ! (n mod 16)"

definition hex_byte :: "nat \<Rightarrow> string" where
  "hex_byte b = [hex_char (b div 16), hex_char b]"

definition uuid_bytes :: "(nat \<Rightarrow> nat) \<Rightarrow> nat list" where
  "uuid_bytes rnd =
     map (\<lambda>i. if i = 6 then rnd 6 mod 16 + 64
               else if i = 8 then rnd 8 mod 64 + 128
               else rnd i mod 256) [0..<16]"

definition randomUUID :: "(nat \<Rightarrow> nat) \<Rightarrow> string" where
  "randomUUID rnd =
     (let h = map hex_byte (uuid_bytes rnd) in
      concat (take 4 h) @ ''-'' @ concat (take 2 (drop 4 h)) @ ''-'' @
      concat (take 2 (drop 6 h)) @ ''-'' @ concat (take 2 (drop 8 h)) @ ''-'' @
      concat (drop 10 h))"

text \<open>\<open>POST /\<close>. \<open>rnd\<close> is the random bytes that \<open>randomUUID()\<close> draws in this call.\<close>

definition post_meal :: "js_env \<Rightarrow> (nat \<Rightarrow> nat) \<Rightarrow> request \<Rightarrow> meals \<Rightarrow> outcome" where
  "post_meal env rnd req rows =
     (case createMealBodySchema env (body req) of
        Inl e \<Rightarrow> (Inl e, rows)
      | Inr (n, d, f, t) \<Rightarrow>
          (Inr \<lparr>status = 201, payload = Empty\<rparr>,
           insert_meal
             \<lparr>id_meal = randomUUID rnd, user_id = id_user (user req), name = n,
              description = d, is_on_diet = f, date = getTime t\<rparr> rows))"

text \<open>\<open>PUT /:id\<close>.\<close>

definition put_meal :: "js_env \<Rightarrow> request \<Rightarrow> meals \<Rightarrow> outcome" where
  "put_meal env req rows =
     (case paramsSchema (params_id req) of
        Inl e \<Rightarrow> (Inl e, rows)
      | Inr i \<Rightarrow>
          (case first (where_id i rows) of
             None \<Rightarrow> (Inr \<lparr>status = 404, payload = Message ''Meal not found''\<rparr>, rows)
           | Some m \<Rightarrow>
               (case editMealBodySchema env (body req) of
                  Inl e \<Rightarrow> (Inl e, rows)
                | Inr (n, d, f, t) \<Rightarrow>
                    (Inr \<lparr>status = 201, payload = Empty\<rparr>,
                     update_where_id i
                       (nullish n (name m))
                       (nullish d (description m))
                       (nullish f (is_on_diet m))
                       (nullish (map_option (getDate env) t) (date m))
                       rows))))"

text \<open>\<open>GET /\<close>. A handler that returns an object answers with status 200.\<close>

definition get_meals :: "request \<Rightarrow> meals \<Rightarrow> outcome" where
  "get_meals req rows =
     (Inr \<lparr>status = 200,
           payload = Meals (orderBy_date_desc (where_user_id (id_user (user req)) rows))\<rparr>,
      rows)"

text \<open>\<open>GET /:id\<close>.\<close>

definition get_meal :: "request \<Rightarrow> meals \<Rightarrow> outcome" where
  "get_meal req rows =
     (case paramsSchema (params_id req) of
        Inl e \<Rightarrow> (Inl e, rows)
      | Inr i \<Rightarrow>
          (case first (where_id i rows) of
             None \<Rightarrow> (Inr \<lparr>status = 404, payload = Error ''Meal not found''\<rparr>, rows)
           | Some m \<Rightarrow> (Inr \<lparr>status = 200, payload = Meal m\<rparr>, rows)))"

text \<open>\<open>DELETE /:id\<close>.\<close>

definition delete_meal :: "request \<Rightarrow> meals \<Rightarrow> outcome" where
  "delete_meal req rows =
     (case paramsSchema (params_id req) of
        Inl e \<Rightarrow> (Inl e, rows)
      | Inr i \<Rightarrow>
          (case first (where_id i rows) of
             None \<Rightarrow> (Inr \<lparr>status = 404, payload = Error ''Meal not found''\<rparr>, rows)
           | Some m \<Rightarrow> (Inr \<lparr>status = 204, payload = Empty\<rparr>, delete_where_id i rows)))"

text \<open>
  \<open>GET /metrics\<close>. The accumulator of the \<open>reduce\<close>; its field \<open>bestOnDietSequence\<close> is
  \<open>bestOnDietSequence_acc\<close> here, the name being taken by the reply.
\<close>

record acc =
  bestOnDietSequence_acc :: int
  currentSequence :: int

definition reducer :: "acc \<Rightarrow> meal \<Rightarrow> acc" where
  "reducer a m =
     (let a1 = (if is_on_diet m then a\<lparr>currentSequence := currentSequence a + 1\<rparr>
                else a\<lparr>currentSequence := 0\<rparr>);
          a2 = (if currentSequence a1 > bestOnDietSequence_acc a1
                then a1\<lparr>bestOnDietSequence_acc := currentSequence a1\<rparr>
                else a1)
      in a2)"

definition reduce :: "meals \<Rightarrow> acc" where
  "reduce ms = foldl reducer \<lparr>bestOnDietSequence_acc = 0, currentSequence = 0\<rparr> ms"

definition get_metrics :: "request \<Rightarrow> meals \<Rightarrow> outcome" where
  "get_metrics req rows =
     (let u = id_user (user req);
          totalMeals' = orderBy_date_desc (where_user_id u rows);
          totalMealsOnDiet' = count_total (where_user_id_is_on_diet u True rows);
          totalMealsOffDiet' = count_total (where_user_id_is_on_diet u False rows);
          best = bestOnDietSequence_acc (reduce totalMeals')
      in (Inr \<lparr>status = 200,
               payload = Metrics
                 \<lparr>totalMeals = int (length totalMeals'),
                  totalMealsOnDiet = totalMealsOnDiet',
                  totalMealsOffDiet = totalMealsOffDiet',
                  bestOnDietSequence = best\<rparr>\<rparr>,
          rows))"

text \<open>
  Modelled from the spec: the declaration of the table \<open>meals\<close> is not among the
  sources. The spec has \<open>id\<close> as the unique identifier of a meal, globally unique and
  never reused: no two rows of the table share their \<open>id\<close>.
\<close>

definition unique_ids :: "meals \<Rightarrow> bool" where
  "unique_ids rows = distinct (map id_meal rows)"

text \<open>
  Modelled from the spec: the error handler of the server is not among the sources. The
  spec surfaces a schema mismatch to the caller with HTTP status 400.
\<close>

fun error_status :: "error \<Rightarrow> nat" where
  "error_status ZodError = 400"

section \<open>The streak, in the words of the specification\<close>

text \<open>
  The running count after each flag of a scan that starts with the count \<open>c\<close>: one
  more on a flag that is true, zero on one that is false.
\<close>

fun running_counts :: "int \<Rightarrow> bool list \<Rightarrow> int list" where
  "running_counts c [] = []"
| "running_counts c (f # fs) =
     (if f then c + 1 else 0) # running_counts (if f then c + 1 else 0) fs"

text \<open>The maximum running count observed, zero when nothing was scanned.\<close>

definition max_running_count :: "bool list \<Rightarrow> int" where
  "max_running_count fs = Max (insert 0 (set (running_counts 0 fs)))"

section \<open>The day of the month, in the words of the calendar\<close>

text \<open>
  The Gregorian calendar: the years that are leap years, the length of a year and of a
  month (1 is January), and the number of days from 1 January 1970 to a date of the
  calendar, counted year by year and month by month. A time value lies on the day
  \<open>d\<close> of the month \<open>mo\<close> of the year \<open>y\<close> when the number of whole days in it is
  \<open>day_number y mo d\<close>.
\<close>

definition calendar_leap :: "int \<Rightarrow> bool" where
  "calendar_leap y = (y mod 4 = 0 \<and> (y mod 100 \<noteq> 0 \<or> y mod 400 = 0))"

definition year_length :: "int \<Rightarrow> int" where
  "year_length y = (if calendar_leap y then 366 else 365)"

definition month_length :: "int \<Rightarrow> int \<Rightarrow> int" where
  "month_length y mo =
     (if mo = 2 then (if calendar_leap y then 29 else 28)
      else if mo = 4 \<or> mo = 6 \<or> mo = 9 \<or> mo = 11 then 30
      else 31)"

definition valid_date :: "int \<Rightarrow> int \<Rightarrow> int \<Rightarrow> bool" where
  "valid_date y mo d = (1 \<le> mo \<and> mo \<le> 12 \<and> 1 \<le> d \<and> d \<le> month_length y mo)"

definition day_number :: "int \<Rightarrow> int \<Rightarrow> int \<Rightarrow> int" where
  "day_number y mo d =
     (\<Sum>k = 1970..<y. year_length k) - (\<Sum>k = y..<1970. year_length k) +
     (\<Sum>k = 1..<mo. month_length y k) + (d - 1)"

section \<open>Reading an outcome\<close>

definition metrics_of :: "outcome \<Rightarrow> metrics option" where
  "metrics_of out =
     (case fst out of
        Inr r \<Rightarrow> (case payload r of Metrics m \<Rightarrow> Some m | _ \<Rightarrow> None)
      | Inl _ \<Rightarrow> None)"

text \<open>The query of \<open>GET /\<close> and of \<open>GET /metrics\<close>: the meals of the user, latest first.\<close>

abbreviation meals_of_user_desc :: "request \<Rightarrow> meals \<Rightarrow> meals" where
  "meals_of_user_desc req rows \<equiv> orderBy_date_desc (where_user_id (id_user (user req)) rows)"

section \<open>A table and requests to run the routes on\<close>

text \<open>
  The time zone is three hours behind UTC, and \<open>Date.parse\<close> knows one string, ten
  o'clock UTC on 15 January 2024.
\<close>

definition sample_env :: js_env where
  "sample_env =
     \<lparr>LocalTZA = (\<lambda>t. - 10800000),
      Date_parse = (\<lambda>s. if s = ''2024-01-15T10:00:00.000Z'' then Some 1705312800000 else None)\<rparr>"

definition sample_id :: "char \<Rightarrow> string" where
  "sample_id c = ''0b6f6e0a-5c1d-4c3a-9f27-3e1a52d4c00'' @ [c]"

definition sample_meal :: "char \<Rightarrow> string \<Rightarrow> bool \<Rightarrow> int \<Rightarrow> meal" where
  "sample_meal c u f t =
     \<lparr>id_meal = sample_id c, user_id = u, name = ''meal '' @ [c], description = ''as planned'',
      is_on_diet = f, date = t\<rparr>"

text \<open>
  Six meals of \<open>ana\<close> and one of \<open>bob\<close>, not in the order of their dates. Latest first,
  the meals of \<open>ana\<close> are 2, 6, 7, 1, 4, 5, with the flags true, true, false, true,
  true, true; in the order of the table the flags are five times true, then false.
\<close>

definition sample_meals :: meals where
  "sample_meals =
     [sample_meal CHR ''1'' ''ana'' True 1705140000000,
      sample_meal CHR ''2'' ''ana'' True 1705312800000,
      sample_meal CHR ''3'' ''bob'' False 1705300000000,
      sample_meal CHR ''4'' ''ana'' True 1705053600000,
      sample_meal CHR ''5'' ''ana'' True 1704967200000,
      sample_meal CHR ''6'' ''ana'' True 1705240000000,
      sample_meal CHR ''7'' ''ana'' False 1705226400000]"


definition sample_request :: "string \<Rightarrow> string \<Rightarrow> (string \<rightharpoonup> jsval) option \<Rightarrow> request" where
  "sample_request u i b = \<lparr>user = \<lparr>id_user = u\<rparr>, params_id = i, body = b\<rparr>"

definition sample_body :: "(string \<times> jsval) list \<Rightarrow> (string \<rightharpoonup> jsval) option" where
  "sample_body members = Some (map_of members)"

section \<open>The year and the day of the month of a time value\<close>

lemma TimeFromYear_1970: "TimeFromYear 1970 = 0"
  by (simp add: TimeFromYear_def DayFromYear_def)

lemma year_up_spec:
  "TimeFromYear y \<le> t \<Longrightarrow>
   TimeFromYear (year_up t y) \<le> t \<and> t < TimeFromYear (year_up t y + 1)"
proof (induction t y rule: year_up.induct)
  case (1 t y)
  show ?case
  proof (cases "TimeFromYear (y + 1) \<le> t")
    case True
    then show ?thesis using "1.IH" by (subst (1 2) year_up.simps) simp
  next
    case False
    then show ?thesis using "1.prems" by (subst (1 2) year_up.simps) simp
  qed
qed

lemma year_down_spec:
  "t < TimeFromYear (y + 1) \<Longrightarrow>
   TimeFromYear (year_down t y) \<le> t \<and> t < TimeFromYear (year_down t y + 1)"
proof (induction t y rule: year_down.induct)
  case (1 t y)
  show ?case
  proof (cases "t < TimeFromYear y")
    case True
    then show ?thesis using "1.IH" by (subst (1 2) year_down.simps) simp
  next
    case False
    then show ?thesis using "1.prems" by (subst (1 2) year_down.simps) simp
  qed
qed

lemma YearFromTime_spec:
  "TimeFromYear (YearFromTime t) \<le> t \<and> t < TimeFromYear (YearFromTime t + 1)"
proof (cases "0 \<le> t")
  case True
  then show ?thesis
    using year_up_spec [of 1970 t] by (simp add: YearFromTime_def TimeFromYear_1970)
next
  case False
  then show ?thesis
    using year_down_spec [of t 1969] by (simp add: YearFromTime_def TimeFromYear_1970)
qed

lemma TimeFromYear_mono: "y \<le> y' \<Longrightarrow> TimeFromYear y \<le> TimeFromYear y'"
proof (induction y' rule: int_ge_induct)
  case base
  show ?case by simp
next
  case (step i)
  then show ?case using TimeFromYear_less [of i] by linarith
qed

lemma YearFromTime_largest: "TimeFromYear y \<le> t \<Longrightarrow> y \<le> YearFromTime t"
proof (rule ccontr)
  assume le: "TimeFromYear y \<le> t" and "\<not> y \<le> YearFromTime t"
  then have "YearFromTime t + 1 \<le> y" by simp
  then have "TimeFromYear (YearFromTime t + 1) \<le> TimeFromYear y" by (rule TimeFromYear_mono)
  then show False using le YearFromTime_spec [of t] by linarith
qed

lemma div_bounds:
  fixes k t lo hi :: int
  assumes k: "0 < k" and lo: "k * lo \<le> t" and hi: "t < k * hi"
  shows "lo \<le> t div k \<and> t div k < hi"
proof
  have "(k * lo) div k \<le> t div k" using lo k by (rule zdiv_mono1)
  then show "lo \<le> t div k" using k by simp
next
  show "t div k < hi"
  proof (rule ccontr)
    assume "\<not> t div k < hi"
    then have "hi \<le> t div k" by simp
    then have "k * hi \<le> k * (t div k)" using k by (simp add: mult_left_mono)
    moreover have "k * (t div k) + t mod k = t" by simp
    moreover have "0 \<le> t mod k" using k by simp
    ultimately show False using hi by linarith
  qed
qed

lemma DayWithinYear_range:
  "0 \<le> DayWithinYear t \<and> DayWithinYear t < DaysInYear (YearFromTime t)"
proof -
  have "0 < msPerDay" by (simp add: msPerDay_def)
  moreover have "msPerDay * DayFromYear (YearFromTime t) \<le> t"
    using YearFromTime_spec [of t] by (simp add: TimeFromYear_def)
  moreover have "t < msPerDay * DayFromYear (YearFromTime t + 1)"
    using YearFromTime_spec [of t] by (simp add: TimeFromYear_def)
  ultimately have "DayFromYear (YearFromTime t) \<le> t div msPerDay \<and>
      t div msPerDay < DayFromYear (YearFromTime t + 1)"
    by (rule div_bounds)
  then show ?thesis
    unfolding DayWithinYear_def Day_def DayFromYear_Suc by linarith
qed

lemma DateFromTime_range: "1 \<le> DateFromTime t \<and> DateFromTime t \<le> 31"
proof -
  define d where "d = DayWithinYear t"
  define l where "l = InLeapYear t"
  have l: "l = 0 \<or> l = 1" by (simp add: l_def InLeapYear_def)
  have "DaysInYear (YearFromTime t) = 365 + l"
    by (simp add: l_def InLeapYear_def DaysInYear_def)
  then have d: "0 \<le> d" "d < 365 + l"
    using DayWithinYear_range [of t] by (simp_all add: d_def)
  have "DateFromTime t =
     (if d < 31 then d + 1
      else if d < 59 + l then d - 30
      else if d < 90 + l then d - 58 - l
      else if d < 120 + l then d - 89 - l
      else if d < 151 + l then d - 119 - l
      else if d < 181 + l then d - 150 - l
      else if d < 212 + l then d - 180 - l
      else if d < 243 + l then d - 211 - l
      else if d < 273 + l then d - 242 - l
      else if d < 304 + l then d - 272 - l
      else if d < 334 + l then d - 303 - l
      else d - 333 - l)"
    by (simp add: DateFromTime_def MonthFromTime_def d_def l_def)
  then show ?thesis using d l by auto
qed

section \<open>The day of the month is the one of the calendar\<close>

lemma int_interval_Suc: "a \<le> b \<Longrightarrow> {a..<b + 1} = insert b {a..<b::int}"
  by auto

lemma int_interval_pred: "a \<le> b \<Longrightarrow> {a - 1..<b} = insert (a - 1) {a..<b::int}"
  by auto

lemma sum_interval_Suc:
  fixes f :: "int \<Rightarrow> int"
  shows "a \<le> b \<Longrightarrow> (\<Sum>k = a..<b + 1. f k) = (\<Sum>k = a..<b. f k) + f b"
  by (simp add: int_interval_Suc)

lemma sum_interval_pred:
  fixes f :: "int \<Rightarrow> int"
  shows "a \<le> b \<Longrightarrow> (\<Sum>k = a - 1..<b. f k) = f (a - 1) + (\<Sum>k = a..<b. f k)"
  by (simp add: int_interval_pred)

lemma year_length_DaysInYear: "year_length y = DaysInYear y"
  by (simp add: year_length_def calendar_leap_def DaysInYear_def leap_year_def)

lemma DayFromYear_1970: "DayFromYear 1970 = 0"
  by (simp add: DayFromYear_def)

lemma DayFromYear_sum_up:
  "1970 \<le> y \<Longrightarrow> DayFromYear y = (\<Sum>k = 1970..<y. year_length k)"
proof (induction y rule: int_ge_induct)
  case base
  show ?case by (simp add: DayFromYear_1970)
next
  case (step i)
  then show ?case
    by (simp add: DayFromYear_Suc sum_interval_Suc year_length_DaysInYear)
qed

lemma DayFromYear_sum_down:
  "y \<le> 1970 \<Longrightarrow> DayFromYear y = - (\<Sum>k = y..<1970. year_length k)"
proof (induction y rule: int_le_induct)
  case base
  show ?case by (simp add: DayFromYear_1970)
next
  case (step i)
  have "DayFromYear i = DayFromYear (i - 1) + DaysInYear (i - 1)"
    using DayFromYear_Suc [of "i - 1"] by simp
  then show ?case
    using step by (simp add: sum_interval_pred year_length_DaysInYear)
qed

lemma DayFromYear_sum:
  "DayFromYear y = (\<Sum>k = 1970..<y. year_length k) - (\<Sum>k = y..<1970. year_length k)"
proof (cases "1970 \<le> y")
  case True
  then show ?thesis by (simp add: DayFromYear_sum_up)
next
  case False
  then show ?thesis by (simp add: DayFromYear_sum_down)
qed


lemma months_before:
  "(\<Sum>k = 1..<1. month_length y k) = 0"
  "(\<Sum>k = 1..<2. month_length y k) = 31"
  "(\<Sum>k = 1..<3. month_length y k) = 59 + (if calendar_leap y then 1 else 0)"
  "(\<Sum>k = 1..<4. month_length y k) = 90 + (if calendar_leap y then 1 else 0)"
  "(\<Sum>k = 1..<5. month_length y k) = 120 + (if calendar_leap y then 1 else 0)"
  "(\<Sum>k = 1..<6. month_length y k) = 151 + (if calendar_leap y then 1 else 0)"
  "(\<Sum>k = 1..<7. month_length y k) = 181 + (if calendar_leap y then 1 else 0)"
  "(\<Sum>k = 1..<8. month_length y k) = 212 + (if calendar_leap y then 1 else 0)"
  "(\<Sum>k = 1..<9. month_length y k) = 243 + (if calendar_leap y then 1 else 0)"
  "(\<Sum>k = 1..<10. month_length y k) = 273 + (if calendar_leap y then 1 else 0)"
  "(\<Sum>k = 1..<11. month_length y k) = 304 + (if calendar_leap y then 1 else 0)"
  "(\<Sum>k = 1..<12. month_length y k) = 334 + (if calendar_leap y then 1 else 0)"
proof -
  have s: "(\<Sum>k = 1..<n + 1. month_length y k) =
      (\<Sum>k = 1..<n. month_length y k) + month_length y n" if "1 \<le> n" for n
    using that by (rule sum_interval_Suc)
  show m1: "(\<Sum>k = 1..<1. month_length y k) = 0" by simp
  show m2: "(\<Sum>k = 1..<2. month_length y k) = 31"
    using s [of 1] m1 by (simp add: month_length_def)
  show m3: "(\<Sum>k = 1..<3. month_length y k) = 59 + (if calendar_leap y then 1 else 0)"
    using s [of 2] m2 by (simp add: month_length_def)
  show m4: "(\<Sum>k = 1..<4. month_length y k) = 90 + (if calendar_leap y then 1 else 0)"
    using s [of 3] m3 by (simp add: month_length_def)
  show m5: "(\<Sum>k = 1..<5. month_length y k) = 120 + (if calendar_leap y then 1 else 0)"
    using s [of 4] m4 by (simp add: month_length_def)
  show m6: "(\<Sum>k = 1..<6. month_length y k) = 151 + (if calendar_leap y then 1 else 0)"
    using s [of 5] m5 by (simp add: month_length_def)
  show m7: "(\<Sum>k = 1..<7. month_length y k) = 181 + (if calendar_leap y then 1 else 0)"
    using s [of 6] m6 by (simp add: month_length_def)
  show m8: "(\<Sum>k = 1..<8. month_length y k) = 212 + (if calendar_leap y then 1 else 0)"
    using s [of 7] m7 by (simp add: month_length_def)
  show m9: "(\<Sum>k = 1..<9. month_length y k) = 243 + (if calendar_leap y then 1 else 0)"
    using s [of 8] m8 by (simp add: month_length_def)
  show m10: "(\<Sum>k = 1..<10. month_length y k) = 273 + (if calendar_leap y then 1 else 0)"
    using s [of 9] m9 by (simp add: month_length_def)
  show m11: "(\<Sum>k = 1..<11. month_length y k) = 304 + (if calendar_leap y then 1 else 0)"
    using s [of 10] m10 by (simp add: month_length_def)
  show m12: "(\<Sum>k = 1..<12. month_length y k) = 334 + (if calendar_leap y then 1 else 0)"
    using s [of 11] m11 by (simp add: month_length_def)
qed


lemma DateFromTime_calendar:
  "valid_date (YearFromTime t) (MonthFromTime t + 1) (DateFromTime t) \<and>
   Day t = DayFromYear (YearFromTime t) +
     (\<Sum>k = 1..<MonthFromTime t + 1. month_length (YearFromTime t) k) + (DateFromTime t - 1)"
proof -
  define d where "d = DayWithinYear t"
  define l :: int where "l = (if calendar_leap (YearFromTime t) then 1 else 0)"
  have l: "InLeapYear t = l"
    by (simp add: l_def InLeapYear_def DaysInYear_def leap_year_def calendar_leap_def)
  have "DaysInYear (YearFromTime t) = 365 + l"
    by (simp add: l_def DaysInYear_def leap_year_def calendar_leap_def)
  then have d: "0 \<le> d" "d < 365 + l"
    using DayWithinYear_range [of t] by (simp_all add: d_def)
  have dwy: "Day t = DayFromYear (YearFromTime t) + d"
    by (simp add: d_def DayWithinYear_def)
  have M: "MonthFromTime t =
     (if d < 31 then 0
      else if d < 59 + l then 1
      else if d < 90 + l then 2
      else if d < 120 + l then 3
      else if d < 151 + l then 4
      else if d < 181 + l then 5
      else if d < 212 + l then 6
      else if d < 243 + l then 7
      else if d < 273 + l then 8
      else if d < 304 + l then 9
      else if d < 334 + l then 10
      else 11)"
    by (simp add: MonthFromTime_def d_def l)
  have D: "DateFromTime t =
     (if d < 31 then d + 1
      else if d < 59 + l then d - 30
      else if d < 90 + l then d - 58 - l
      else if d < 120 + l then d - 89 - l
      else if d < 151 + l then d - 119 - l
      else if d < 181 + l then d - 150 - l
      else if d < 212 + l then d - 180 - l
      else if d < 243 + l then d - 211 - l
      else if d < 273 + l then d - 242 - l
      else if d < 304 + l then d - 272 - l
      else if d < 334 + l then d - 303 - l
      else d - 333 - l)"
    by (simp add: DateFromTime_def MonthFromTime_def d_def l)
  have l01: "l = 0 \<or> l = 1" by (simp add: l_def)
  consider
      (c0) "d < 31" |
      (c1) "31 \<le> d \<and> d < 59 + l" |
      (c2) "59 + l \<le> d \<and> d < 90 + l" |
      (c3) "90 + l \<le> d \<and> d < 120 + l" |
      (c4) "120 + l \<le> d \<and> d < 151 + l" |
      (c5) "151 + l \<le> d \<and> d < 181 + l" |
      (c6) "181 + l \<le> d \<and> d < 212 + l" |
      (c7) "212 + l \<le> d \<and> d < 243 + l" |
      (c8) "243 + l \<le> d \<and> d < 273 + l" |
      (c9) "273 + l \<le> d \<and> d < 304 + l" |
      (c10) "304 + l \<le> d \<and> d < 334 + l" |
      (c11) "334 + l \<le> d \<and> d < 365 + l"
    using d by linarith
  then show ?thesis
  proof cases
    case c0
    then have m: "MonthFromTime t = 0" and dd: "DateFromTime t = d + 1"
      using d l01 by (auto simp: M D)
    have S: "(\<Sum>k = 1..<MonthFromTime t + 1. month_length (YearFromTime t) k) = 0"
      by (simp add: m months_before l_def)
    have L: "month_length (YearFromTime t) (MonthFromTime t + 1) = 31"
      by (simp add: m month_length_def l_def)
    show ?thesis
      unfolding valid_date_def S L dwy dd using c0 d l01 by (simp add: m)
  next
    case c1
    then have m: "MonthFromTime t = 1" and dd: "DateFromTime t = d - 30"
      using d l01 by (auto simp: M D)
    have S: "(\<Sum>k = 1..<MonthFromTime t + 1. month_length (YearFromTime t) k) = 31"
      by (simp add: m months_before l_def)
    have L: "month_length (YearFromTime t) (MonthFromTime t + 1) = 28 + l"
      by (simp add: m month_length_def l_def)
    show ?thesis
      unfolding valid_date_def S L dwy dd using c1 d l01 by (simp add: m)
  next
    case c2
    then have m: "MonthFromTime t = 2" and dd: "DateFromTime t = d - 58 - l"
      using d l01 by (auto simp: M D)
    have S: "(\<Sum>k = 1..<MonthFromTime t + 1. month_length (YearFromTime t) k) = 59 + l"
      by (simp add: m months_before l_def)
    have L: "month_length (YearFromTime t) (MonthFromTime t + 1) = 31"
      by (simp add: m month_length_def l_def)
    show ?thesis
      unfolding valid_date_def S L dwy dd using c2 d l01 by (simp add: m)
  next
    case c3
    then have m: "MonthFromTime t = 3" and dd: "DateFromTime t = d - 89 - l"
      using d l01 by (auto simp: M D)
    have S: "(\<Sum>k = 1..<MonthFromTime t + 1. month_length (YearFromTime t) k) = 90 + l"
      by (simp add: m months_before l_def)
    have L: "month_length (YearFromTime t) (MonthFromTime t + 1) = 30"
      by (simp add: m month_length_def l_def)
    show ?thesis
      unfolding valid_date_def S L dwy dd using c3 d l01 by (simp add: m)
  next
    case c4
    then have m: "MonthFromTime t = 4" and dd: "DateFromTime t = d - 119 - l"
      using d l01 by (auto simp: M D)
    have S: "(\<Sum>k = 1..<MonthFromTime t + 1. month_length (YearFromTime t) k) = 120 + l"
      by (simp add: m months_before l_def)
    have L: "month_length (YearFromTime t) (MonthFromTime t + 1) = 31"
      by (simp add: m month_length_def l_def)
    show ?thesis
      unfolding valid_date_def S L dwy dd using c4 d l01 by (simp add: m)
  next
    case c5
    then have m: "MonthFromTime t = 5" and dd: "DateFromTime t = d - 150 - l"
      using d l01 by (auto simp: M D)
    have S: "(\<Sum>k = 1..<MonthFromTime t + 1. month_length (YearFromTime t) k) = 151 + l"
      by (simp add: m months_before l_def)
    have L: "month_length (YearFromTime t) (MonthFromTime t + 1) = 30"
      by (simp add: m month_length_def l_def)
    show ?thesis
      unfolding valid_date_def S L dwy dd using c5 d l01 by (simp add: m)
  next
    case c6
    then have m: "MonthFromTime t = 6" and dd: "DateFromTime t = d - 180 - l"
      using d l01 by (auto simp: M D)
    have S: "(\<Sum>k = 1..<MonthFromTime t + 1. month_length (YearFromTime t) k) = 181 + l"
      by (simp add: m months_before l_def)
    have L: "month_length (YearFromTime t) (MonthFromTime t + 1) = 31"
      by (simp add: m month_length_def l_def)
    show ?thesis
      unfolding valid_date_def S L dwy dd using c6 d l01 by (simp add: m)
  next
    case c7
    then have m: "MonthFromTime t = 7" and dd: "DateFromTime t = d - 211 - l"
      using d l01 by (auto simp: M D)
    have S: "(\<Sum>k = 1..<MonthFromTime t + 1. month_length (YearFromTime t) k) = 212 + l"
      by (simp add: m months_before l_def)
    have L: "month_length (YearFromTime t) (MonthFromTime t + 1) = 31"
      by (simp add: m month_length_def l_def)
    show ?thesis
      unfolding valid_date_def S L dwy dd using c7 d l01 by (simp add: m)
  next
    case c8
    then have m: "MonthFromTime t = 8" and dd: "DateFromTime t = d - 242 - l"
      using d l01 by (auto simp: M D)
    have S: "(\<Sum>k = 1..<MonthFromTime t + 1. month_length (YearFromTime t) k) = 243 + l"
      by (simp add: m months_before l_def)
    have L: "month_length (YearFromTime t) (MonthFromTime t + 1) = 30"
      by (simp add: m month_length_def l_def)
    show ?thesis
      unfolding valid_date_def S L dwy dd using c8 d l01 by (simp add: m)
  next
    case c9
    then have m: "MonthFromTime t = 9" and dd: "DateFromTime t = d - 272 - l"
      using d l01 by (auto simp: M D)
    have S: "(\<Sum>k = 1..<MonthFromTime t + 1. month_length (YearFromTime t) k) = 273 + l"
      by (simp add: m months_before l_def)
    have L: "month_length (YearFromTime t) (MonthFromTime t + 1) = 31"
      by (simp add: m month_length_def l_def)
    show ?thesis
      unfolding valid_date_def S L dwy dd using c9 d l01 by (simp add: m)
  next
    case c10
    then have m: "MonthFromTime t = 10" and dd: "DateFromTime t = d - 303 - l"
      using d l01 by (auto simp: M D)
    have S: "(\<Sum>k = 1..<MonthFromTime t + 1. month_length (YearFromTime t) k) = 304 + l"
      by (simp add: m months_before l_def)
    have L: "month_length (YearFromTime t) (MonthFromTime t + 1) = 30"
      by (simp add: m month_length_def l_def)
    show ?thesis
      unfolding valid_date_def S L dwy dd using c10 d l01 by (simp add: m)
  next
    case c11
    then have m: "MonthFromTime t = 11" and dd: "DateFromTime t = d - 333 - l"
      using d l01 by (auto simp: M D)
    have S: "(\<Sum>k = 1..<MonthFromTime t + 1. month_length (YearFromTime t) k) = 334 + l"
      by (simp add: m months_before l_def)
    have L: "month_length (YearFromTime t) (MonthFromTime t + 1) = 31"
      by (simp add: m month_length_def l_def)
    show ?thesis
      unfolding valid_date_def S L dwy dd using c11 d l01 by (simp add: m)
  qed
qed

lemma getDate_calendar:
  "\<exists>y mo. valid_date y mo (getDate env dt) \<and>
     (getTime dt + LocalTZA env (getTime dt)) div 86400000 = day_number y mo (getDate env dt)"
proof (cases dt)
  case (Date t)
  have "valid_date (YearFromTime (LocalTime env t)) (MonthFromTime (LocalTime env t) + 1)
      (DateFromTime (LocalTime env t)) \<and>
    LocalTime env t div 86400000 =
      day_number (YearFromTime (LocalTime env t)) (MonthFromTime (LocalTime env t) + 1)
        (DateFromTime (LocalTime env t))"
    using DateFromTime_calendar [of "LocalTime env t"]
    unfolding day_number_def DayFromYear_sum [symmetric] Day_def msPerDay_def .
  then show ?thesis
    unfolding Date getDate.simps getTime.simps LocalTime_def by blast
qed

section \<open>Looking a meal up\<close>

lemma first_where_id_None: "(first (where_id i rows) = None) = (i \<notin> id_meal ` set rows)"
  by (induction rows) (auto simp: where_id_def)


lemma first_where_id_unique:
  "unique_ids rows \<Longrightarrow> m \<in> set rows \<Longrightarrow> first (where_id (id_meal m) rows) = Some m"
  by (induction rows) (auto simp: where_id_def unique_ids_def)

section \<open>\<open>randomUUID\<close> gives a well-formed UUID\<close>

lemma hex_digit_hex_char [simp]: "hex_digit (hex_char n)"
proof -
  have "''0123456789abcdef'' ! (n mod 16) \<in> set ''0123456789abcdef''"
    by (rule nth_mem) simp
  then show ?thesis
    unfolding hex_char_def hex_digit_def by auto
qed


section \<open>The samples\<close>

lemma uuid_sample_id: "hex_digit c \<Longrightarrow> uuid (sample_id c)"
  by (simp add: sample_id_def uuid_def hex_digit_def upt_rec)

lemma sample_id_inject [simp]: "(sample_id c = sample_id c') = (c = c')"
  by (simp add: sample_id_def)

lemma sample_request_simps [simp]:
  "user (sample_request u i b) = \<lparr>id_user = u\<rparr>"
  "params_id (sample_request u i b) = i"
  "body (sample_request u i b) = b"
  by (simp_all add: sample_request_def)

lemma sample_meal_simps [simp]:
  "id_meal (sample_meal c u f t) = sample_id c"
  "user_id (sample_meal c u f t) = u"
  "is_on_diet (sample_meal c u f t) = f"
  "date (sample_meal c u f t) = t"
  by (simp_all add: sample_meal_def)


lemma unique_ids_sample_meals: "unique_ids sample_meals"
  by (simp add: unique_ids_def sample_meals_def)

lemma sample_member: "sample_id CHR ''1'' \<in> id_meal ` set sample_meals"
  by (simp add: sample_meals_def)

lemma uuid_sample_1: "uuid (sample_id CHR ''1'')"
  by (simp add: uuid_sample_id hex_digit_def)

lemma sample_date: "getDate sample_env (Date 1705312800000) = 15"
  by code_simp

section \<open>The streak\<close>

lemma reducer_simps:
  "bestOnDietSequence_acc (reducer a m) =
     max (bestOnDietSequence_acc a) (if is_on_diet m then currentSequence a + 1 else 0)"
  "currentSequence (reducer a m) = (if is_on_diet m then currentSequence a + 1 else 0)"
  by (simp_all add: reducer_def Let_def max_def)

lemma foldl_reducer:
  "bestOnDietSequence_acc (foldl reducer a ms) =
     Max (insert (bestOnDietSequence_acc a)
       (set (running_counts (currentSequence a) (map is_on_diet ms))))"
proof (induction ms arbitrary: a)
  case Nil
  show ?case by simp
next
  case (Cons m ms)
  have "Max (insert (max (bestOnDietSequence_acc a) c) S) =
        Max (insert (bestOnDietSequence_acc a) (insert c S))" if "finite S" for c S
    using that by (cases "S = {}") (simp_all add: max.assoc)
  then show ?case
    by (simp add: Cons.IH reducer_simps del: Max_insert)
qed

lemma reduce_max_running_count:
  "bestOnDietSequence_acc (reduce ms) = max_running_count (map is_on_diet ms)"
  by (simp add: reduce_def max_running_count_def foldl_reducer)

section \<open>The meals of a user, latest first\<close>

lemma sort_key_unique:
  fixes f :: "'a \<Rightarrow> int"
  assumes "mset ys = mset xs" and "sorted (map f ys)" and "distinct (map f ys)"
  shows "sort_key f xs = ys"
proof -
  have m: "mset (map f (sort_key f xs)) = mset (map f ys)"
    using assms(1) by simp
  have d: "distinct (map f (sort_key f xs))"
    using m assms(3) mset_eq_imp_distinct_iff by blast
  have s: "set (map f (sort_key f xs)) = set (map f ys)"
    using m mset_eq_setD by blast
  have "sorted (map f (sort_key f xs))" by simp
  then have e: "map f (sort_key f xs) = map f ys"
    using d assms(2,3) s by (rule sorted_distinct_set_unique)
  have "inj_on f (set ys)" using assms(3) by (simp add: distinct_map)
  moreover have "set (sort_key f xs) = set ys"
    using mset_eq_setD [OF assms(1)] by simp
  ultimately have "inj_on f (set (sort_key f xs) \<union> set ys)" by simp
  then show ?thesis using e by (rule inj_on_map_eq_map [THEN iffD1])
qed

lemma scan_unique:
  assumes "mset scan = mset (filter (\<lambda>m. user_id m = id_user (user req)) rows)"
    and "sorted_wrt (\<lambda>a b. date b \<le> date a) scan" and "distinct (map date scan)"
  shows "meals_of_user_desc req rows = scan"
proof -
  have "sorted (map (\<lambda>m. - date m) scan)"
    using assms(2) by (simp add: sorted_map)
  moreover have "distinct (map (\<lambda>m. - date m) scan)"
    using assms(3) by (simp add: distinct_map inj_on_def)
  ultimately show ?thesis
    unfolding orderBy_date_desc_def where_user_id_def
    by (intro sort_key_unique [OF assms(1)])
qed

lemma scan_props:
  "mset (meals_of_user_desc req rows) = mset (filter (\<lambda>m. user_id m = id_user (user req)) rows) \<and>
   sorted_wrt (\<lambda>a b. date b \<le> date a) (meals_of_user_desc req rows)"
proof -
  have "sorted (map (\<lambda>m. - date m) (meals_of_user_desc req rows))"
    by (simp add: orderBy_date_desc_def)
  then show ?thesis
    by (simp add: sorted_map orderBy_date_desc_def where_user_id_def)
qed

section \<open>Deleting by id\<close>

lemma delete_where_id_split:
  "unique_ids rows \<Longrightarrow> first (where_id i rows) = Some m \<Longrightarrow>
   \<exists>xs ys. rows = xs @ m # ys \<and> delete_where_id i rows = xs @ ys"
proof (induction rows)
  case Nil
  then show ?case by (simp add: where_id_def)
next
  case (Cons r rows)
  show ?case
  proof (cases "id_meal r = i")
    case True
    then have m: "m = r" using Cons.prems(2) by (simp add: where_id_def)
    have "i \<notin> id_meal ` set rows" using Cons.prems(1) True by (auto simp: unique_ids_def)
    then have "filter (\<lambda>m. id_meal m \<noteq> i) rows = rows"
      by (auto simp: filter_id_conv)
    then have "r # rows = [] @ m # rows \<and> delete_where_id i (r # rows) = [] @ rows"
      using True m by (simp add: delete_where_id_def)
    then show ?thesis by blast
  next
    case False
    then have "first (where_id i rows) = Some m" using Cons.prems(2) by (simp add: where_id_def)
    moreover have "unique_ids rows" using Cons.prems(1) by (simp add: unique_ids_def)
    ultimately obtain xs ys where "rows = xs @ m # ys" "delete_where_id i rows = xs @ ys"
      using Cons.IH by blast
    then have "r # rows = (r # xs) @ m # ys \<and> delete_where_id i (r # rows) = (r # xs) @ ys"
      using False by (simp add: delete_where_id_def)
    then show ?thesis by blast
  qed
qed

lemma id_not_in_delete: "i \<notin> id_meal ` set (delete_where_id i rows)"
  by (auto simp: delete_where_id_def)

section \<open>Bounds on the streak\<close>

lemma foldl_reducer_bounds:
  "currentSequence a \<le> k \<Longrightarrow> bestOnDietSequence_acc a \<le> k \<Longrightarrow> 0 \<le> bestOnDietSequence_acc a \<Longrightarrow>
   0 \<le> bestOnDietSequence_acc (foldl reducer a ms) \<and>
   bestOnDietSequence_acc (foldl reducer a ms) \<le> k + int (length (filter is_on_diet ms))"
proof (induction ms arbitrary: a k)
  case Nil
  then show ?case by simp
next
  case (Cons m ms)
  show ?case
  proof (cases "is_on_diet m")
    case True
    have "0 \<le> bestOnDietSequence_acc (foldl reducer (reducer a m) ms) \<and>
      bestOnDietSequence_acc (foldl reducer (reducer a m) ms) \<le> (k + 1) + int (length (filter is_on_diet ms))"
      using Cons.prems True by (intro Cons.IH) (simp_all add: reducer_simps)
    then show ?thesis using True by simp
  next
    case False
    have "0 \<le> bestOnDietSequence_acc (foldl reducer (reducer a m) ms) \<and>
      bestOnDietSequence_acc (foldl reducer (reducer a m) ms) \<le> k + int (length (filter is_on_diet ms))"
      using Cons.prems False by (intro Cons.IH) (simp_all add: reducer_simps)
    then show ?thesis using False by simp
  qed
qed

lemma reduce_bounds:
  "0 \<le> bestOnDietSequence_acc (reduce ms) \<and>
   bestOnDietSequence_acc (reduce ms) \<le> int (length (filter is_on_diet ms))"
  using foldl_reducer_bounds [of "\<lparr>bestOnDietSequence_acc = 0, currentSequence = 0\<rparr>" 0 ms]
  by (simp add: reduce_def)

section \<open>The schemas and \<open>PUT /:id\<close>\<close>

lemma z_optional_None_iff:
  "z_optional schema v = Some x \<Longrightarrow> (x = None) = (v = None)"
  by (cases v) (auto simp: z_optional_def)

lemma z_optional_Some:
  "z_optional schema v = Some (Some y) \<Longrightarrow> schema v = Some y"
  by (cases v) (auto simp: z_optional_def)

lemma editMealBodySchema_Inr:
  assumes "editMealBodySchema env (Some obj) = Inr (n, d, f, t)"
  shows "z_optional z_string (obj ''name'') = Some n"
    and "z_optional z_string (obj ''description'') = Some d"
    and "z_optional z_boolean (obj ''isOnDiet'') = Some f"
    and "z_optional (z_coerce_date env) (obj ''date'') = Some t"
  using assms by (auto simp: editMealBodySchema_def split: option.splits)

lemma editMealBodySchema_omitted:
  assumes "editMealBodySchema env (Some obj) = Inr (n, d, f, t)"
  shows "(n = None) = (obj ''name'' = None)"
    and "(d = None) = (obj ''description'' = None)"
    and "(f = None) = (obj ''isOnDiet'' = None)"
    and "(t = None) = (obj ''date'' = None)"
  using editMealBodySchema_Inr [OF assms] by (simp_all add: z_optional_None_iff)

lemma editMealBodySchema_empty:
  assumes "obj ''name'' = None" "obj ''description'' = None" "obj ''isOnDiet'' = None"
    "obj ''date'' = None"
  shows "editMealBodySchema env (Some obj) = Inr (None, None, None, None)"
  using assms by (simp add: editMealBodySchema_def z_optional_def)

lemma put_meal_found:
  assumes "uuid (params_id req)" and "first (where_id (params_id req) rows) = Some m"
    and "editMealBodySchema env (body req) = Inr (n, d, f, t)"
  shows "put_meal env req rows =
     (Inr \<lparr>status = 201, payload = Empty\<rparr>,
      update_where_id (params_id req) (nullish n (name m)) (nullish d (description m))
        (nullish f (is_on_diet m)) (nullish (map_option (getDate env) t) (date m)) rows)"
  using assms by (simp add: put_meal_def paramsSchema_def)

lemma put_meal_rejected:
  assumes "editMealBodySchema env (body req) = Inl e"
  shows "snd (put_meal env req rows) = rows"
  using assms by (simp add: put_meal_def paramsSchema_def split: option.splits)

lemma snd_put_meal_cases:
  "snd (put_meal env req rows) = rows \<or>
   (\<exists>m n d f t. uuid (params_id req) \<and> first (where_id (params_id req) rows) = Some m \<and>
      editMealBodySchema env (body req) = Inr (n, d, f, t) \<and>
      snd (put_meal env req rows) =
        update_where_id (params_id req) (nullish n (name m)) (nullish d (description m))
          (nullish f (is_on_diet m)) (nullish (map_option (getDate env) t) (date m)) rows)"
  by (auto simp: put_meal_def paramsSchema_def split: option.splits sum.splits)

lemma update_where_id_same:
  assumes "unique_ids rows" and "first (where_id i rows) = Some m"
  shows "update_where_id i (name m) (description m) (is_on_diet m) (date m) rows = rows"
proof -
  have "r\<lparr>name := name m, description := description m, is_on_diet := is_on_diet m,
          date := date m\<rparr> = r" if "r \<in> set rows" "id_meal r = i" for r
  proof -
    have "first (where_id i rows) = Some r"
      using first_where_id_unique [OF assms(1) that(1)] that(2) by simp
    then have "r = m" using assms(2) by simp
    then show ?thesis by simp
  qed
  then show ?thesis
    by (simp add: update_where_id_def map_idI)
qed

lemma getDate_range: "1 \<le> getDate env dt \<and> getDate env dt \<le> 31"
  by (cases dt) (simp add: DateFromTime_range)



lemma update_row_frame:
  assumes "unique_ids rows" and "first (where_id i rows) = Some m" and "r \<in> set rows"
    and "id_meal r = i"
  shows "r = m"
proof -
  have "first (where_id i rows) = Some r"
    using first_where_id_unique [OF assms(1,3)] assms(4) by simp
  then show ?thesis using assms(2) by simp
qed

section \<open>The date that \<open>PUT /:id\<close> stores\<close>

lemma put_meal_date_accepted:
  assumes "uuid (params_id req)" and "unique_ids rows"
    and "params_id req \<in> id_meal ` set rows"
    and "body req = Some obj"
    and "editMealBodySchema env (body req) = Inr (n, d, f, t)"
  shows "fst (put_meal env req rows) = Inr \<lparr>status = 201, payload = Empty\<rparr> \<and>
         (obj ''date'' = None \<longrightarrow> map date (snd (put_meal env req rows)) = map date rows) \<and>
         (\<forall>v. obj ''date'' = Some v \<longrightarrow>
            (\<exists>dt. z_coerce_date env (Some v) = Some dt \<and>
               list_all2
                 (\<lambda>r r'. if id_meal r = params_id req
                          then date r' = getDate env dt \<and> 1 \<le> date r' \<and> date r' \<le> 31 \<and>
                               (\<exists>y mo. valid_date y mo (date r') \<and>
                                  (getTime dt + LocalTZA env (getTime dt)) div 86400000 =
                                    day_number y mo (date r')) \<and>
                               (getTime dt < 1 \<or> 31 < getTime dt \<longrightarrow> date r' \<noteq> getTime dt)
                          else date r' = date r)
                 rows (snd (put_meal env req rows))))"
proof -
  obtain m where m: "first (where_id (params_id req) rows) = Some m"
    using assms(3) first_where_id_None [of "params_id req" rows]
    by (cases "first (where_id (params_id req) rows)") auto
  have e: "editMealBodySchema env (Some obj) = Inr (n, d, f, t)"
    using assms(4,5) by simp
  have p: "put_meal env req rows =
     (Inr \<lparr>status = 201, payload = Empty\<rparr>,
      update_where_id (params_id req) (nullish n (name m)) (nullish d (description m))
        (nullish f (is_on_diet m)) (nullish (map_option (getDate env) t) (date m)) rows)"
    using put_meal_found [OF assms(1) m assms(5)] .
  have omitted: "map date (snd (put_meal env req rows)) = map date rows" if "obj ''date'' = None"
  proof -
    have t: "t = None" using editMealBodySchema_omitted(4) [OF e] that by simp
    have "date m = date r" if "r \<in> set rows" "id_meal r = params_id req" for r
      using update_row_frame [OF assms(2) m that] by simp
    then show ?thesis
      unfolding p update_where_id_def t by simp
  qed
  have supplied: "\<exists>dt. z_coerce_date env (Some v) = Some dt \<and>
      list_all2
        (\<lambda>r r'. if id_meal r = params_id req
                 then date r' = getDate env dt \<and> 1 \<le> date r' \<and> date r' \<le> 31 \<and>
                      (\<exists>y mo. valid_date y mo (date r') \<and>
                         (getTime dt + LocalTZA env (getTime dt)) div 86400000 =
                           day_number y mo (date r')) \<and>
                      (getTime dt < 1 \<or> 31 < getTime dt \<longrightarrow> date r' \<noteq> getTime dt)
                 else date r' = date r)
        rows (snd (put_meal env req rows))" if v: "obj ''date'' = Some v" for v
  proof -
    have "t \<noteq> None" using editMealBodySchema_omitted(4) [OF e] v by simp
    then obtain dt where t: "t = Some dt" by auto
    have c: "z_coerce_date env (Some v) = Some dt"
      using editMealBodySchema_Inr(4) [OF e] unfolding v t by (rule z_optional_Some)
    have r: "1 \<le> getDate env dt" "getDate env dt \<le> 31"
      using getDate_range [of env dt] by simp_all
    have ne: "getTime dt < 1 \<Longrightarrow> getDate env dt \<noteq> getTime dt"
      "31 < getTime dt \<Longrightarrow> getDate env dt \<noteq> getTime dt"
      using r by linarith+
    have "list_all2
        (\<lambda>r r'. if id_meal r = params_id req
                 then date r' = getDate env dt \<and> 1 \<le> date r' \<and> date r' \<le> 31 \<and>
                      (\<exists>y mo. valid_date y mo (date r') \<and>
                         (getTime dt + LocalTZA env (getTime dt)) div 86400000 =
                           day_number y mo (date r')) \<and>
                      (getTime dt < 1 \<or> 31 < getTime dt \<longrightarrow> date r' \<noteq> getTime dt)
                 else date r' = date r)
        rows (snd (put_meal env req rows))"
      unfolding p update_where_id_def t
      by (auto simp: list_all2_map2 list_all2_same r getDate_calendar dest: ne)
    with c show ?thesis by (intro exI conjI)
  qed
  have "fst (put_meal env req rows) = Inr \<lparr>status = 201, payload = Empty\<rparr>"
    by (simp add: p)
  moreover note omitted supplied
  ultimately show ?thesis by (intro conjI impI allI)
qed

section \<open>The routes keep the ids of the table unique\<close>

lemma unique_ids_update_where_id:
  "unique_ids (update_where_id i n d f t rows) = unique_ids rows"
proof -
  have "map id_meal (update_where_id i n d f t rows) = map id_meal rows"
    by (simp add: update_where_id_def)
  then show ?thesis by (simp add: unique_ids_def)
qed

lemma unique_ids_put_meal: "unique_ids rows \<Longrightarrow> unique_ids (snd (put_meal env req rows))"
  using snd_put_meal_cases [of env req rows] by (auto simp: unique_ids_update_where_id)

lemma unique_ids_delete_meal: "unique_ids rows \<Longrightarrow> unique_ids (snd (delete_meal req rows))"
  by (auto simp: delete_meal_def delete_where_id_def unique_ids_def distinct_map_filter
      split: sum.splits option.splits)

lemma unique_ids_post_meal:
  "unique_ids rows \<Longrightarrow> randomUUID rnd \<notin> id_meal ` set rows \<Longrightarrow>
   unique_ids (snd (post_meal env rnd req rows))"
  by (auto simp: post_meal_def insert_meal_def unique_ids_def split: sum.splits)

section \<open>The claims\<close>

text \<open>
  C1. For every acting user and every table, the \<open>bestOnDietSequence\<close> that
  \<open>GET /metrics\<close> answers is the maximum running count of a scan that adds one on a
  meal that is on the diet and starts again from zero on one that is not, over a list
  that holds exactly the meals of the user and in which no meal comes before one of a
  later date. When the dates of the user's meals differ from each other there is one
  such list, and the answer is the maximum running count over it. When the flags in
  that order are true, true, false, true, true, true the answer is 3, and when the user
  has no meal it is 0.
\<close>

theorem metrics_bestOnDietSequence:
  "(\<exists>scan. mset scan = mset (filter (\<lambda>m. user_id m = id_user (user req)) rows) \<and>
      sorted_wrt (\<lambda>a b. date b \<le> date a) scan \<and>
      map_option bestOnDietSequence (metrics_of (get_metrics req rows)) =
        Some (max_running_count (map is_on_diet scan)) \<and>
      (map is_on_diet scan = [True, True, False, True, True, True] \<longrightarrow>
         map_option bestOnDietSequence (metrics_of (get_metrics req rows)) = Some 3)) \<and>
   (\<forall>scan. mset scan = mset (filter (\<lambda>m. user_id m = id_user (user req)) rows) \<and>
      sorted_wrt (\<lambda>a b. date b \<le> date a) scan \<and> distinct (map date scan) \<longrightarrow>
      map_option bestOnDietSequence (metrics_of (get_metrics req rows)) =
        Some (max_running_count (map is_on_diet scan)) \<and>
      (map is_on_diet scan = [True, True, False, True, True, True] \<longrightarrow>
         map_option bestOnDietSequence (metrics_of (get_metrics req rows)) = Some 3)) \<and>
   (filter (\<lambda>m. user_id m = id_user (user req)) rows = [] \<longrightarrow>
      map_option bestOnDietSequence (metrics_of (get_metrics req rows)) = Some 0)"
proof -
  define best where "best = map_option bestOnDietSequence (metrics_of (get_metrics req rows))"
  define own where "own = filter (\<lambda>m. user_id m = id_user (user req)) rows"
  have m: "best = Some (max_running_count (map is_on_diet (meals_of_user_desc req rows)))"
    by (simp add: best_def get_metrics_def metrics_of_def Let_def reduce_max_running_count)
  have three: "max_running_count [True, True, False, True, True, True] = 3"
    by (simp add: max_running_count_def)
  have p: "mset (meals_of_user_desc req rows) = mset own"
    "sorted_wrt (\<lambda>a b. date b \<le> date a) (meals_of_user_desc req rows)"
    using scan_props [of req rows] by (simp_all add: own_def)
  have "map is_on_diet (meals_of_user_desc req rows) = [True, True, False, True, True, True] \<longrightarrow>
      best = Some 3"
    using m three by simp
  with p m have a: "\<exists>scan. mset scan = mset own \<and>
      sorted_wrt (\<lambda>a b. date b \<le> date a) scan \<and>
      best = Some (max_running_count (map is_on_diet scan)) \<and>
      (map is_on_diet scan = [True, True, False, True, True, True] \<longrightarrow> best = Some 3)"
    by (intro exI [of _ "meals_of_user_desc req rows"] conjI)
  have b: "\<forall>scan. mset scan = mset own \<and>
      sorted_wrt (\<lambda>a b. date b \<le> date a) scan \<and> distinct (map date scan) \<longrightarrow>
      best = Some (max_running_count (map is_on_diet scan)) \<and>
      (map is_on_diet scan = [True, True, False, True, True, True] \<longrightarrow> best = Some 3)"
  proof (intro allI impI, elim conjE)
    fix scan
    assume "mset scan = mset own" "sorted_wrt (\<lambda>a b. date b \<le> date a) scan"
      "distinct (map date scan)"
    then have "meals_of_user_desc req rows = scan"
      unfolding own_def by (rule scan_unique)
    then show "best = Some (max_running_count (map is_on_diet scan)) \<and>
      (map is_on_diet scan = [True, True, False, True, True, True] \<longrightarrow> best = Some 3)"
      using m three by simp
  qed
  have c: "own = [] \<longrightarrow> best = Some 0"
    by (simp add: m own_def orderBy_date_desc_def where_user_id_def max_running_count_def)
  show ?thesis
    using a b c unfolding best_def own_def by (intro conjI)
qed

theorem metrics_bestOnDietSequence_witness:
  "mset [sample_meal CHR ''2'' ''ana'' True 1705312800000,
         sample_meal CHR ''6'' ''ana'' True 1705240000000,
         sample_meal CHR ''7'' ''ana'' False 1705226400000,
         sample_meal CHR ''1'' ''ana'' True 1705140000000,
         sample_meal CHR ''4'' ''ana'' True 1705053600000,
         sample_meal CHR ''5'' ''ana'' True 1704967200000] =
     mset (filter (\<lambda>m. user_id m = ''ana'') sample_meals) \<and>
   map is_on_diet (filter (\<lambda>m. user_id m = ''ana'') sample_meals) =
     [True, True, True, True, True, False] \<and>
   max_running_count [True, True, True, True, True, False] = 5 \<and>
   map_option bestOnDietSequence
     (metrics_of (get_metrics (sample_request ''ana'' [] None) sample_meals)) = Some 3 \<and>
   filter (\<lambda>m. user_id m = ''eve'') sample_meals = [] \<and>
   map_option bestOnDietSequence
     (metrics_of (get_metrics (sample_request ''eve'' [] None) sample_meals)) = Some 0"
proof -
  let ?scan = "[sample_meal CHR ''2'' ''ana'' True 1705312800000,
         sample_meal CHR ''6'' ''ana'' True 1705240000000,
         sample_meal CHR ''7'' ''ana'' False 1705226400000,
         sample_meal CHR ''1'' ''ana'' True 1705140000000,
         sample_meal CHR ''4'' ''ana'' True 1705053600000,
         sample_meal CHR ''5'' ''ana'' True 1704967200000]"
  let ?ana = "sample_request ''ana'' [] None"
  let ?eve = "sample_request ''eve'' [] None"
  have own: "filter (\<lambda>m. user_id m = ''ana'') sample_meals =
      [sample_meal CHR ''1'' ''ana'' True 1705140000000,
       sample_meal CHR ''2'' ''ana'' True 1705312800000,
       sample_meal CHR ''4'' ''ana'' True 1705053600000,
       sample_meal CHR ''5'' ''ana'' True 1704967200000,
       sample_meal CHR ''6'' ''ana'' True 1705240000000,
       sample_meal CHR ''7'' ''ana'' False 1705226400000]"
    by (simp add: sample_meals_def)
  have p: "mset ?scan = mset (filter (\<lambda>m. user_id m = ''ana'') sample_meals)"
    unfolding own by simp
  have s: "sorted_wrt (\<lambda>a b. date b \<le> date a) ?scan" by simp
  have d: "distinct (map date ?scan)" by simp
  have f: "map is_on_diet ?scan = [True, True, False, True, True, True]" by simp
  have t: "map is_on_diet (filter (\<lambda>m. user_id m = ''ana'') sample_meals) =
      [True, True, True, True, True, False]"
    unfolding own by simp
  have five: "max_running_count [True, True, True, True, True, False] = 5"
    by (simp add: max_running_count_def)
  have ua: "id_user (user ?ana) = ''ana''" and ue: "id_user (user ?eve) = ''eve''"
    by simp_all
  have e: "filter (\<lambda>m. user_id m = ''eve'') sample_meals = []"
    by (simp add: sample_meals_def)
  note T = metrics_bestOnDietSequence [of ?ana sample_meals, unfolded ua,
      THEN conjunct2, THEN conjunct1, THEN spec, of ?scan, THEN mp,
      OF conjI [OF p conjI [OF s d]]]
  have a: "map_option bestOnDietSequence
      (metrics_of (get_metrics ?ana sample_meals)) = Some 3"
    using T [THEN conjunct2, THEN mp, OF f] .
  have z: "map_option bestOnDietSequence
      (metrics_of (get_metrics ?eve sample_meals)) = Some 0"
    using metrics_bestOnDietSequence [of ?eve sample_meals, unfolded ue,
        THEN conjunct2, THEN conjunct2, THEN mp, OF e] .
  show ?thesis
    using p t five a e z by (intro conjI)
qed

text \<open>
  C2. On a \<open>PUT /:id\<close> for the id of a row of the table, with ids unique in the table.
  A body that the schema refuses, as one whose \<open>date\<close> is not a valid date, makes the
  handler throw the schema's error and leaves the table as it was. For a body that the
  schema accepts the answer is 201 and: when the body has a \<open>date\<close>, the column \<open>date\<close>
  of that row becomes the day of the month of the date given, in local time: a number
  \<open>d\<close> from 1 to 31 such that the local time lies on the day \<open>d\<close> of some month of some
  year of the calendar; it is not the time value of that date unless the time value is
  itself from 1 to 31, and the dates of the other rows stay; when the body has no
  \<open>date\<close>, every stored date stays.
\<close>

theorem update_date_is_day_of_month:
  assumes "uuid (params_id req)" and "unique_ids rows"
    and "params_id req \<in> id_meal ` set rows"
    and "body req = Some obj"
  shows "(editMealBodySchema env (body req) = Inl ZodError \<longrightarrow>
            put_meal env req rows = (Inl ZodError, rows)) \<and>
         (\<forall>v. obj ''date'' = Some v \<and> z_coerce_date env (Some v) = None \<longrightarrow>
            editMealBodySchema env (body req) = Inl ZodError) \<and>
         (\<forall>x. editMealBodySchema env (body req) = Inr x \<longrightarrow>
            fst (put_meal env req rows) = Inr \<lparr>status = 201, payload = Empty\<rparr> \<and>
            (obj ''date'' = None \<longrightarrow>
               map date (snd (put_meal env req rows)) = map date rows) \<and>
            (\<forall>v. obj ''date'' = Some v \<longrightarrow>
               (\<exists>dt. z_coerce_date env (Some v) = Some dt \<and>
                  list_all2
                    (\<lambda>r r'. if id_meal r = params_id req
                             then date r' = getDate env dt \<and> 1 \<le> date r' \<and> date r' \<le> 31 \<and>
                                  (\<exists>y mo. valid_date y mo (date r') \<and>
                                     (getTime dt + LocalTZA env (getTime dt)) div 86400000 =
                                       day_number y mo (date r')) \<and>
                                  (getTime dt < 1 \<or> 31 < getTime dt \<longrightarrow>
                                     date r' \<noteq> getTime dt)
                             else date r' = date r)
                    rows (snd (put_meal env req rows)))))"
proof (intro conjI allI impI)
  assume "editMealBodySchema env (body req) = Inl ZodError"
  moreover obtain m where "first (where_id (params_id req) rows) = Some m"
    using assms(3) first_where_id_None [of "params_id req" rows]
    by (cases "first (where_id (params_id req) rows)") auto
  ultimately show "put_meal env req rows = (Inl ZodError, rows)"
    using assms(1) by (simp add: put_meal_def paramsSchema_def)
next
  fix v
  assume "obj ''date'' = Some v \<and> z_coerce_date env (Some v) = None"
  then show "editMealBodySchema env (body req) = Inl ZodError"
    using assms(4) by (simp add: editMealBodySchema_def z_optional_def split: option.splits)
next
  fix x
  assume x: "editMealBodySchema env (body req) = Inr x"
  obtain n d f t where "x = (n, d, f, t)" by (cases x) auto
  then have e: "editMealBodySchema env (body req) = Inr (n, d, f, t)" using x by simp
  note A = put_meal_date_accepted [OF assms e]
  show "fst (put_meal env req rows) = Inr \<lparr>status = 201, payload = Empty\<rparr>"
    using A by (rule conjunct1)
  show "map date (snd (put_meal env req rows)) = map date rows" if "obj ''date'' = None"
    using A [THEN conjunct2, THEN conjunct1] that by (rule mp)
  show "\<exists>dt. z_coerce_date env (Some v) = Some dt \<and>
      list_all2
        (\<lambda>r r'. if id_meal r = params_id req
                 then date r' = getDate env dt \<and> 1 \<le> date r' \<and> date r' \<le> 31 \<and>
                      (\<exists>y mo. valid_date y mo (date r') \<and>
                         (getTime dt + LocalTZA env (getTime dt)) div 86400000 =
                           day_number y mo (date r')) \<and>
                      (getTime dt < 1 \<or> 31 < getTime dt \<longrightarrow> date r' \<noteq> getTime dt)
                 else date r' = date r)
        rows (snd (put_meal env req rows))" if "obj ''date'' = Some v" for v
    using A [THEN conjunct2, THEN conjunct2, THEN spec, of v] that by (rule mp)
qed

theorem update_date_is_day_of_month_witness:
  "fst (put_meal sample_env
          (sample_request ''ana'' (sample_id CHR ''1'')
             (sample_body [(''date'', JStr ''2024-01-15T10:00:00.000Z'')])) sample_meals) =
     Inr \<lparr>status = 201, payload = Empty\<rparr> \<and>
   (\<exists>dt. z_coerce_date sample_env (Some (JStr ''2024-01-15T10:00:00.000Z'')) = Some dt \<and>
      getTime dt = 1705312800000 \<and> getDate sample_env dt = 15 \<and>
      list_all2
        (\<lambda>r r'. if id_meal r = sample_id CHR ''1''
                 then date r' = getDate sample_env dt \<and> 1 \<le> date r' \<and> date r' \<le> 31 \<and>
                      (\<exists>y mo. valid_date y mo (date r') \<and>
                         (getTime dt + LocalTZA sample_env (getTime dt)) div 86400000 =
                           day_number y mo (date r')) \<and>
                      (getTime dt < 1 \<or> 31 < getTime dt \<longrightarrow> date r' \<noteq> getTime dt)
                 else date r' = date r)
        sample_meals
        (snd (put_meal sample_env
           (sample_request ''ana'' (sample_id CHR ''1'')
              (sample_body [(''date'', JStr ''2024-01-15T10:00:00.000Z'')])) sample_meals))) \<and>
   valid_date 2024 1 15 \<and>
   (1705312800000 + LocalTZA sample_env 1705312800000) div 86400000 = day_number 2024 1 15 \<and>
   map date (snd (put_meal sample_env
       (sample_request ''ana'' (sample_id CHR ''1'') (sample_body [(''name'', JStr ''soup'')]))
       sample_meals)) = map date sample_meals \<and>
   put_meal sample_env
     (sample_request ''ana'' (sample_id CHR ''1'') (sample_body [(''date'', JNum 9000000000000000)]))
     sample_meals = (Inl ZodError, sample_meals)"
proof -
  let ?d = "sample_request ''ana'' (sample_id CHR ''1'')
              (sample_body [(''date'', JStr ''2024-01-15T10:00:00.000Z'')])"
  let ?n = "sample_request ''ana'' (sample_id CHR ''1'') (sample_body [(''name'', JStr ''soup'')])"
  let ?x = "sample_request ''ana'' (sample_id CHR ''1'') (sample_body [(''date'', JNum 9000000000000000)])"
  let ?od = "map_of [(''date'', JStr ''2024-01-15T10:00:00.000Z'')]"
  let ?on = "map_of [(''name'', JStr ''soup'')]"
  let ?ox = "map_of [(''date'', JNum 9000000000000000)]"
  have u: "uuid (params_id ?d)" "uuid (params_id ?n)" "uuid (params_id ?x)"
    by (simp_all add: uuid_sample_id hex_digit_def)
  have i: "params_id ?d \<in> id_meal ` set sample_meals"
    "params_id ?n \<in> id_meal ` set sample_meals" "params_id ?x \<in> id_meal ` set sample_meals"
    using sample_member by simp_all
  have b: "body ?d = Some ?od" "body ?n = Some ?on" "body ?x = Some ?ox"
    by (simp_all add: sample_body_def)
  have c: "z_coerce_date sample_env (Some (JStr ''2024-01-15T10:00:00.000Z'')) =
      Some (Date 1705312800000)"
    by (simp add: sample_env_def TimeClip_def ToIntegerOrInfinity_def)
  have ed: "editMealBodySchema sample_env (body ?d) =
      Inr (None, None, None, Some (Date 1705312800000))"
    unfolding b
    by (simp add: editMealBodySchema_def z_optional_def sample_env_def TimeClip_def
        ToIntegerOrInfinity_def)
  have en: "editMealBodySchema sample_env (body ?n) = Inr (Some ''soup'', None, None, None)"
    unfolding b by (simp add: editMealBodySchema_def z_optional_def)
  have cx: "?ox ''date'' = Some (JNum 9000000000000000) \<and> z_coerce_date sample_env (Some (JNum 9000000000000000)) = None"
    by (simp add: TimeClip_def)
  note D = update_date_is_day_of_month [OF u(1) unique_ids_sample_meals i(1) b(1),
      of sample_env, THEN conjunct2, THEN conjunct2, THEN spec, THEN mp, OF ed]
  note N = update_date_is_day_of_month [OF u(2) unique_ids_sample_meals i(2) b(2),
      of sample_env, THEN conjunct2, THEN conjunct2, THEN spec, THEN mp, OF en]
  note X = update_date_is_day_of_month [OF u(3) unique_ids_sample_meals i(3) b(3),
      of sample_env]
  have s: "fst (put_meal sample_env ?d sample_meals) = Inr \<lparr>status = 201, payload = Empty\<rparr>"
    using D by (rule conjunct1)
  have od: "?od ''date'' = Some (JStr ''2024-01-15T10:00:00.000Z'')" by simp
  obtain dt where
    dt: "z_coerce_date sample_env (Some (JStr ''2024-01-15T10:00:00.000Z'')) = Some dt"
    and rows: "list_all2
        (\<lambda>r r'. if id_meal r = params_id ?d
                 then date r' = getDate sample_env dt \<and> 1 \<le> date r' \<and> date r' \<le> 31 \<and>
                      (\<exists>y mo. valid_date y mo (date r') \<and>
                         (getTime dt + LocalTZA sample_env (getTime dt)) div 86400000 =
                           day_number y mo (date r')) \<and>
                      (getTime dt < 1 \<or> 31 < getTime dt \<longrightarrow> date r' \<noteq> getTime dt)
                 else date r' = date r)
        sample_meals (snd (put_meal sample_env ?d sample_meals))"
    using D [THEN conjunct2, THEN conjunct2, THEN spec, THEN mp, OF od] by blast
  have "dt = Date 1705312800000" using dt unfolding c by simp
  then have g: "getTime dt = 1705312800000" "getDate sample_env dt = 15"
    using sample_date by simp_all
  have p: "params_id ?d = sample_id CHR ''1''" by simp
  have e: "\<exists>dt. z_coerce_date sample_env (Some (JStr ''2024-01-15T10:00:00.000Z'')) = Some dt \<and>
      getTime dt = 1705312800000 \<and> getDate sample_env dt = 15 \<and>
      list_all2
        (\<lambda>r r'. if id_meal r = sample_id CHR ''1''
                 then date r' = getDate sample_env dt \<and> 1 \<le> date r' \<and> date r' \<le> 31 \<and>
                      (\<exists>y mo. valid_date y mo (date r') \<and>
                         (getTime dt + LocalTZA sample_env (getTime dt)) div 86400000 =
                           day_number y mo (date r')) \<and>
                      (getTime dt < 1 \<or> 31 < getTime dt \<longrightarrow> date r' \<noteq> getTime dt)
                 else date r' = date r)
        sample_meals (snd (put_meal sample_env ?d sample_meals))"
    using dt g rows unfolding p by (intro exI conjI)
  have v: "valid_date 2024 1 15" by code_simp
  have k: "(1705312800000 + LocalTZA sample_env 1705312800000) div 86400000 =
      day_number 2024 1 15"
    by code_simp
  have on: "?on ''date'' = None" by simp
  have n: "map date (snd (put_meal sample_env ?n sample_meals)) = map date sample_meals"
    using N [THEN conjunct2, THEN conjunct1, THEN mp, OF on] .
  have x: "put_meal sample_env ?x sample_meals = (Inl ZodError, sample_meals)"
    using X [THEN conjunct1, THEN mp,
        OF X [THEN conjunct2, THEN conjunct1, THEN spec, THEN mp, OF cx]] .
  show ?thesis
    using s e v k n x by (intro conjI)
qed

text \<open>
  C2, as the claim has it, fails for a body whose \<open>date\<close> is not a valid date: the body
  has a \<open>date\<close> and the id is the one of the first row of the table, yet the handler
  throws, the table stays, and the date of that row stays a time value, far above 31.
\<close>

theorem update_date_counterexample:
  "map_of [(''date'', JStr ''tomorrow'')] ''date'' = Some (JStr ''tomorrow'') \<and>
   first (where_id (sample_id CHR ''1'') sample_meals) =
     Some (sample_meal CHR ''1'' ''ana'' True 1705140000000) \<and>
   put_meal sample_env
     (sample_request ''ana'' (sample_id CHR ''1'') (sample_body [(''date'', JStr ''tomorrow'')]))
     sample_meals = (Inl ZodError, sample_meals) \<and>
   date (sample_meal CHR ''1'' ''ana'' True 1705140000000) = 1705140000000 \<and>
   \<not> date (sample_meal CHR ''1'' ''ana'' True 1705140000000) \<le> 31"
proof -
  have f: "first (where_id (sample_id CHR ''1'') sample_meals) =
      Some (sample_meal CHR ''1'' ''ana'' True 1705140000000)"
    by (simp add: where_id_def sample_meals_def)
  have "editMealBodySchema sample_env (sample_body [(''date'', JStr ''tomorrow'')]) =
      Inl ZodError"
    by (simp add: editMealBodySchema_def z_optional_def sample_body_def sample_env_def)
  then have "put_meal sample_env
     (sample_request ''ana'' (sample_id CHR ''1'') (sample_body [(''date'', JStr ''tomorrow'')]))
     sample_meals = (Inl ZodError, sample_meals)"
    using f by (simp add: put_meal_def paramsSchema_def uuid_sample_id hex_digit_def)
  then show ?thesis using f by simp
qed

text \<open>
  C3. On a \<open>PUT /:id\<close> for the id of a row of the table, with ids unique in the table:
  every row keeps its \<open>id\<close> and its owner, a row of another id stays as it is, and a
  column whose member is absent from the body keeps its value; with none of the four
  members in the body the table stays as it is and the answer is 201 with no body, as it
  is for every body the schema accepts.
\<close>

theorem update_keeps_omitted_fields:
  assumes "uuid (params_id req)" and "unique_ids rows"
    and "params_id req \<in> id_meal ` set rows"
    and "body req = Some obj"
  shows "list_all2
           (\<lambda>r r'. id_meal r' = id_meal r \<and> user_id r' = user_id r \<and>
              (id_meal r \<noteq> params_id req \<longrightarrow> r' = r) \<and>
              (obj ''name'' = None \<longrightarrow> name r' = name r) \<and>
              (obj ''description'' = None \<longrightarrow> description r' = description r) \<and>
              (obj ''isOnDiet'' = None \<longrightarrow> is_on_diet r' = is_on_diet r) \<and>
              (obj ''date'' = None \<longrightarrow> date r' = date r))
           rows (snd (put_meal env req rows)) \<and>
         (obj ''name'' = None \<and> obj ''description'' = None \<and> obj ''isOnDiet'' = None \<and>
          obj ''date'' = None \<longrightarrow>
            put_meal env req rows = (Inr \<lparr>status = 201, payload = Empty\<rparr>, rows)) \<and>
         (\<forall>x. editMealBodySchema env (body req) = Inr x \<longrightarrow>
            fst (put_meal env req rows) = Inr \<lparr>status = 201, payload = Empty\<rparr>)"
proof -
  obtain m where m: "first (where_id (params_id req) rows) = Some m"
    using assms(3) first_where_id_None [of "params_id req" rows] by (cases "first (where_id (params_id req) rows)") auto
  let ?P = "\<lambda>r r'. id_meal r' = id_meal r \<and> user_id r' = user_id r \<and>
              (id_meal r \<noteq> params_id req \<longrightarrow> r' = r) \<and>
              (obj ''name'' = None \<longrightarrow> name r' = name r) \<and>
              (obj ''description'' = None \<longrightarrow> description r' = description r) \<and>
              (obj ''isOnDiet'' = None \<longrightarrow> is_on_diet r' = is_on_diet r) \<and>
              (obj ''date'' = None \<longrightarrow> date r' = date r)"
  have frame: "list_all2 ?P rows (snd (put_meal env req rows))"
  proof (cases "editMealBodySchema env (body req)")
    case (Inl e)
    then have "snd (put_meal env req rows) = rows" by (rule put_meal_rejected)
    then show ?thesis by (simp add: list_all2_same)
  next
    case (Inr x)
    obtain n d f t where x: "x = (n, d, f, t)" by (cases x) auto
    have e: "editMealBodySchema env (Some obj) = Inr (n, d, f, t)"
      using Inr x assms(4) by simp
    have p: "snd (put_meal env req rows) =
        update_where_id (params_id req) (nullish n (name m)) (nullish d (description m))
          (nullish f (is_on_diet m)) (nullish (map_option (getDate env) t) (date m)) rows"
      using put_meal_found [OF assms(1) m, of env n d f t] Inr x by simp
    have "?P r (if id_meal r = params_id req
               then r\<lparr>name := nullish n (name m), description := nullish d (description m),
                      is_on_diet := nullish f (is_on_diet m),
                      date := nullish (map_option (getDate env) t) (date m)\<rparr>
               else r)" if "r \<in> set rows" for r
    proof (cases "id_meal r = params_id req")
      case True
      then have "r = m" using update_row_frame [OF assms(2) m that] by simp
      then show ?thesis using True editMealBodySchema_omitted [OF e] by auto
    next
      case False
      then show ?thesis by simp
    qed
    then show ?thesis
      unfolding p update_where_id_def by (simp add: list_all2_map2 list_all2_same)
  qed
  have none: "put_meal env req rows = (Inr \<lparr>status = 201, payload = Empty\<rparr>, rows)"
    if "obj ''name'' = None" "obj ''description'' = None" "obj ''isOnDiet'' = None"
      "obj ''date'' = None"
  proof -
    have "editMealBodySchema env (body req) = Inr (None, None, None, None)"
      using editMealBodySchema_empty [OF that] assms(4) by simp
    then show ?thesis
      using put_meal_found [OF assms(1) m, of env None None None None]
        update_where_id_same [OF assms(2) m] by simp
  qed
  have ok: "fst (put_meal env req rows) = Inr \<lparr>status = 201, payload = Empty\<rparr>"
    if "editMealBodySchema env (body req) = Inr x" for x
    using that put_meal_found [OF assms(1) m] by (cases x) auto
  show ?thesis using frame none ok by blast
qed

theorem update_keeps_omitted_fields_witness:
  "list_all2
     (\<lambda>r r'. id_meal r' = id_meal r \<and> user_id r' = user_id r \<and>
        (id_meal r \<noteq> sample_id CHR ''1'' \<longrightarrow> r' = r) \<and>
        name r' = name r \<and> is_on_diet r' = is_on_diet r \<and> date r' = date r)
     sample_meals
     (snd (put_meal sample_env
        (sample_request ''ana'' (sample_id CHR ''1'')
           (sample_body [(''description'', JStr ''less bread'')])) sample_meals)) \<and>
   fst (put_meal sample_env
        (sample_request ''ana'' (sample_id CHR ''1'')
           (sample_body [(''description'', JStr ''less bread'')])) sample_meals) =
     Inr \<lparr>status = 201, payload = Empty\<rparr> \<and>
   put_meal sample_env (sample_request ''ana'' (sample_id CHR ''1'') (sample_body []))
     sample_meals = (Inr \<lparr>status = 201, payload = Empty\<rparr>, sample_meals)"
proof -
  let ?d = "sample_request ''ana'' (sample_id CHR ''1'')
              (sample_body [(''description'', JStr ''less bread'')])"
  let ?e = "sample_request ''ana'' (sample_id CHR ''1'') (sample_body [])"
  have "editMealBodySchema sample_env (body ?d) = Inr (None, Some ''less bread'', None, None)"
    by (simp add: editMealBodySchema_def z_optional_def sample_body_def)
  then have d: "list_all2
     (\<lambda>r r'. id_meal r' = id_meal r \<and> user_id r' = user_id r \<and>
        (id_meal r \<noteq> sample_id CHR ''1'' \<longrightarrow> r' = r) \<and>
        name r' = name r \<and> is_on_diet r' = is_on_diet r \<and> date r' = date r)
     sample_meals (snd (put_meal sample_env ?d sample_meals)) \<and>
     fst (put_meal sample_env ?d sample_meals) = Inr \<lparr>status = 201, payload = Empty\<rparr>"
    using update_keeps_omitted_fields
      [of ?d sample_meals "map_of [(''description'', JStr ''less bread'')]" sample_env]
      uuid_sample_1 unique_ids_sample_meals sample_member
    by (simp add: sample_body_def)
  have e: "put_meal sample_env ?e sample_meals =
      (Inr \<lparr>status = 201, payload = Empty\<rparr>, sample_meals)"
    using update_keeps_omitted_fields [of ?e sample_meals "map_of []" sample_env]
      uuid_sample_1 unique_ids_sample_meals sample_member
    by (simp add: sample_body_def)
  show ?thesis using d e by (intro conjI) simp_all
qed



text \<open>
  C5. When the id of the request is a well-formed UUID and no row of the table has it,
  \<open>PUT /:id\<close> and \<open>DELETE /:id\<close> answer 404 and leave the table as it was, and so does
  \<open>GET /:id\<close>. The body of the answer is \<open>{message: "Meal not found"}\<close> on \<open>PUT\<close> and
  \<open>{error: "Meal not found"}\<close> on \<open>GET\<close> and \<open>DELETE\<close>.
\<close>

theorem not_found_no_mutation:
  assumes "uuid (params_id req)" and "params_id req \<notin> id_meal ` set rows"
  shows "put_meal env req rows =
           (Inr \<lparr>status = 404, payload = Message ''Meal not found''\<rparr>, rows) \<and>
         delete_meal req rows =
           (Inr \<lparr>status = 404, payload = Error ''Meal not found''\<rparr>, rows) \<and>
         get_meal req rows =
           (Inr \<lparr>status = 404, payload = Error ''Meal not found''\<rparr>, rows)"
proof -
  have "first (where_id (params_id req) rows) = None"
    using assms(2) by (simp add: first_where_id_None)
  then show ?thesis
    using assms(1) by (simp add: put_meal_def delete_meal_def get_meal_def paramsSchema_def)
qed

theorem not_found_no_mutation_witness:
  "put_meal sample_env (sample_request ''ana'' (sample_id CHR ''9'') None) sample_meals =
     (Inr \<lparr>status = 404, payload = Message ''Meal not found''\<rparr>, sample_meals) \<and>
   delete_meal (sample_request ''ana'' (sample_id CHR ''9'') None) sample_meals =
     (Inr \<lparr>status = 404, payload = Error ''Meal not found''\<rparr>, sample_meals) \<and>
   get_meal (sample_request ''ana'' (sample_id CHR ''9'') None) sample_meals =
     (Inr \<lparr>status = 404, payload = Error ''Meal not found''\<rparr>, sample_meals)"
  using not_found_no_mutation
    [of "sample_request ''ana'' (sample_id CHR ''9'') None" sample_meals sample_env]
  by (simp add: uuid_sample_id hex_digit_def sample_meals_def)

text \<open>
  C6. When the id of the request is the id of a row \<open>m\<close> of the table, \<open>DELETE /:id\<close>
  answers 204 with no body and leaves the table without \<open>m\<close>, every other row in its
  place; a \<open>GET /:id\<close> with that id on the table it leaves answers 404.
\<close>

theorem delete_then_get:
  assumes "uuid (params_id req)" and "unique_ids rows"
    and "first (where_id (params_id req) rows) = Some m"
    and "params_id req' = params_id req"
  shows "\<exists>xs ys. rows = xs @ m # ys \<and>
           delete_meal req rows = (Inr \<lparr>status = 204, payload = Empty\<rparr>, xs @ ys) \<and>
           get_meal req' (xs @ ys) =
             (Inr \<lparr>status = 404, payload = Error ''Meal not found''\<rparr>, xs @ ys)"
proof -
  obtain xs ys where s: "rows = xs @ m # ys" "delete_where_id (params_id req) rows = xs @ ys"
    using delete_where_id_split [OF assms(2,3)] by blast
  have d: "delete_meal req rows = (Inr \<lparr>status = 204, payload = Empty\<rparr>, xs @ ys)"
    using assms(1,3) s(2) by (simp add: delete_meal_def paramsSchema_def)
  have "params_id req \<notin> id_meal ` set (xs @ ys)"
    using id_not_in_delete [of "params_id req" rows] unfolding s(2) .
  then have "first (where_id (params_id req') (xs @ ys)) = None"
    by (simp add: first_where_id_None assms(4))
  then have "get_meal req' (xs @ ys) =
      (Inr \<lparr>status = 404, payload = Error ''Meal not found''\<rparr>, xs @ ys)"
    using assms(1,4) by (simp add: get_meal_def paramsSchema_def)
  then show ?thesis using s(1) d by blast
qed

theorem delete_then_get_witness:
  "\<exists>xs ys. sample_meals = xs @ sample_meal CHR ''3'' ''bob'' False 1705300000000 # ys \<and>
     delete_meal (sample_request ''bob'' (sample_id CHR ''3'') None) sample_meals =
       (Inr \<lparr>status = 204, payload = Empty\<rparr>, xs @ ys) \<and>
     get_meal (sample_request ''bob'' (sample_id CHR ''3'') None) (xs @ ys) =
       (Inr \<lparr>status = 404, payload = Error ''Meal not found''\<rparr>, xs @ ys)"
proof -
  have "uuid (params_id (sample_request ''bob'' (sample_id CHR ''3'') None))"
    by (simp add: uuid_sample_id hex_digit_def)
  moreover note unique_ids_sample_meals
  moreover have "first (where_id (params_id (sample_request ''bob'' (sample_id CHR ''3'') None))
      sample_meals) = Some (sample_meal CHR ''3'' ''bob'' False 1705300000000)"
    by (simp add: where_id_def sample_meals_def)
  ultimately show ?thesis
    by (rule delete_then_get) simp
qed

text \<open>
  C7. For every acting user and every table, \<open>GET /\<close> answers 200 with the rows whose
  \<open>user_id\<close> is the id of the acting user, each as often as the table has it and no
  other row, ordered so that no meal comes before one of a later date.
\<close>

theorem list_own_meals_desc:
  "\<exists>ms. get_meals req rows = (Inr \<lparr>status = 200, payload = Meals ms\<rparr>, rows) \<and>
     mset ms = mset (filter (\<lambda>m. user_id m = id_user (user req)) rows) \<and>
     set ms = {m \<in> set rows. user_id m = id_user (user req)} \<and>
     sorted_wrt (\<lambda>a b. date b \<le> date a) ms"
proof -
  let ?ms = "meals_of_user_desc req rows"
  have "sorted (map (\<lambda>m. - date m) ?ms)"
    by (simp add: orderBy_date_desc_def)
  then have "sorted_wrt (\<lambda>a b. date b \<le> date a) ?ms"
    by (simp add: sorted_map)
  then show ?thesis
    by (auto simp: get_meals_def orderBy_date_desc_def where_user_id_def)
qed




text \<open>
  C9. For every acting user and every table, the numbers that \<open>GET /metrics\<close> answers
  satisfy \<open>0 \<le> bestOnDietSequence \<le> totalMealsOnDiet \<le> totalMeals\<close> and
  \<open>totalMeals = totalMealsOnDiet + totalMealsOffDiet\<close>.
\<close>

theorem metrics_counts_ordered:
  "\<exists>m. metrics_of (get_metrics req rows) = Some m \<and>
     0 \<le> bestOnDietSequence m \<and>
     bestOnDietSequence m \<le> totalMealsOnDiet m \<and>
     totalMealsOnDiet m \<le> totalMeals m \<and>
     totalMeals m = totalMealsOnDiet m + totalMealsOffDiet m"
proof -
  let ?u = "id_user (user req)"
  let ?own = "filter (\<lambda>m. user_id m = ?u) rows"
  have on: "length (filter is_on_diet (sort_key (\<lambda>m. - date m) ?own)) =
            length (filter (\<lambda>m. user_id m = ?u \<and> is_on_diet m = True) rows)"
    by (simp add: filter_sort conj_commute)
  have part: "length (filter (\<lambda>m. user_id m = ?u \<and> is_on_diet m = True) rows) +
              length (filter (\<lambda>m. user_id m = ?u \<and> is_on_diet m = False) rows) = length ?own"
    using sum_length_filter_compl [of is_on_diet ?own] by (simp add: conj_commute)
  have best: "0 \<le> bestOnDietSequence_acc (reduce (sort_key (\<lambda>m. - date m) ?own)) \<and>
      bestOnDietSequence_acc (reduce (sort_key (\<lambda>m. - date m) ?own)) \<le>
        int (length (filter (\<lambda>m. user_id m = ?u \<and> is_on_diet m = True) rows))"
    using reduce_bounds [of "sort_key (\<lambda>m. - date m) ?own"] by (simp only: on)
  show ?thesis
    using best part
    by (simp add: get_metrics_def metrics_of_def Let_def orderBy_date_desc_def where_user_id_def
        where_user_id_is_on_diet_def count_total_def)
qed

text \<open>
  C10. When the id of the request is not a well-formed UUID, \<open>GET /:id\<close> and
  \<open>DELETE /:id\<close> throw the schema's error, whatever the table holds, and leave the table
  as it was; the status of that error is 400.
\<close>

theorem invalid_id_validation_error:
  assumes "\<not> uuid (params_id req)"
  shows "get_meal req rows = (Inl ZodError, rows) \<and>
         delete_meal req rows = (Inl ZodError, rows) \<and>
         fst (get_meal req rows) = fst (get_meal req rows') \<and>
         fst (delete_meal req rows) = fst (delete_meal req rows') \<and>
         error_status ZodError = 400"
  using assms by (simp add: get_meal_def delete_meal_def paramsSchema_def)

theorem invalid_id_validation_error_witness:
  "\<not> uuid ''42'' \<and>
   get_meal (sample_request ''ana'' ''42'' None) sample_meals = (Inl ZodError, sample_meals) \<and>
   delete_meal (sample_request ''ana'' ''42'' None) sample_meals = (Inl ZodError, sample_meals) \<and>
   fst (get_meal (sample_request ''ana'' ''42'' None) sample_meals) =
     fst (get_meal (sample_request ''ana'' ''42'' None) []) \<and>
   fst (delete_meal (sample_request ''ana'' ''42'' None) sample_meals) =
     fst (delete_meal (sample_request ''ana'' ''42'' None) [])"
  using invalid_id_validation_error [of "sample_request ''ana'' ''42'' None" sample_meals "[]"]
    invalid_id_validation_error [of "sample_request ''ana'' ''42'' None" "[]" "[]"]
  by (simp add: uuid_def)

end
